theory Spec2Isabelle
  imports Main
begin

section \<open>Data model\<close>

text \<open>
  The gallery service of \<^verbatim>\<open>src/services/googleSheets.ts\<close> works on records
  \<^verbatim>\<open>ImageData { id: string; url: string; label: string; comments?: string }\<close>
  (declared in the gallery component). Strings are lists of code units; only code units
  below 256 occur in the model. The optional field is an \<open>option\<close>.
\<close>

record ImageData =
  img_id :: string
  url :: string
  label :: string
  comments :: "string option"

section \<open>String primitives of the runtime\<close>

text \<open>
  \<^verbatim>\<open>String.prototype.trim\<close> removes white space and line terminators from both ends.
  Of the code units below 256 these are TAB, LF, VT, FF, CR, SPACE and NBSP.
\<close>

definition is_white_space :: "char \<Rightarrow> bool" where
  "is_white_space c \<longleftrightarrow>
     c = CHR 0x09 \<or> c = CHR 0x0A \<or> c = CHR 0x0B \<or> c = CHR 0x0C \<or>
     c = CHR 0x0D \<or> c = CHR 0x20 \<or> c = CHR 0xA0"

definition trim :: "string \<Rightarrow> string" where
  "trim s = rev (dropWhile is_white_space (rev (dropWhile is_white_space s)))"

text \<open>\<^verbatim>\<open>s.split(sep)\<close> for a one-character separator: never an empty array.\<close>

fun split_on :: "char \<Rightarrow> string \<Rightarrow> string list" where
  "split_on sep [] = [[]]"
| "split_on sep (c # cs) =
     (if c = sep then [] # split_on sep cs
      else (case split_on sep cs of
              [] \<Rightarrow> [[c]]
            | w # ws \<Rightarrow> (c # w) # ws))"

text \<open>\<^verbatim>\<open>n.toString()\<close> for a non-negative integer: its decimal digits
  (\<open>digit_char\<close> is only applied to \<open>d < 10\<close>).\<close>

definition digit_char :: "nat \<Rightarrow> char" where
  "digit_char d = ''0123456789'' ! d"

fun decimal :: "nat \<Rightarrow> string" where
  "decimal n = (if n < 10 then [digit_char n] else decimal (n div 10) @ [digit_char (n mod 10)])"

declare decimal.simps [simp del]

text \<open>\<^verbatim>\<open>cell.replace(/^"/, '')\<close> and \<^verbatim>\<open>cell.replace(/"$/, '')\<close>: one quote at most, at the
  very start and at the very end.\<close>

definition strip_leading_quote :: "string \<Rightarrow> string" where
  "strip_leading_quote s = (case s of [] \<Rightarrow> [] | c # cs \<Rightarrow> if c = CHR 0x22 then cs else s)"

definition strip_trailing_quote :: "string \<Rightarrow> string" where
  "strip_trailing_quote s = (if s \<noteq> [] \<and> last s = CHR 0x22 then butlast s else s)"

definition clean_cell :: "string \<Rightarrow> string" where
  "clean_cell cell = trim (strip_trailing_quote (strip_leading_quote cell))"

text \<open>Array destructuring \<^verbatim>\<open>[id, url, label] = cells\<close>: a missing position is
  \<^verbatim>\<open>undefined\<close>. A string is truthy when it is defined and not empty; \<^verbatim>\<open>a || b\<close>
  takes \<open>b\<close> when \<open>a\<close> is not truthy.\<close>

definition cell_at :: "string list \<Rightarrow> nat \<Rightarrow> string option" where
  "cell_at cells k = (if k < length cells then Some (cells ! k) else None)"

definition truthy :: "string option \<Rightarrow> bool" where
  "truthy v = (case v of None \<Rightarrow> False | Some s \<Rightarrow> s \<noteq> [])"

definition or_else :: "string option \<Rightarrow> string \<Rightarrow> string" where
  "or_else v d = (case v of None \<Rightarrow> d | Some s \<Rightarrow> if s = [] then d else s)"

definition startsWith :: "string \<Rightarrow> string \<Rightarrow> bool" where
  "startsWith s p \<longleftrightarrow> take (length p) s = p"

section \<open>parseCSV\<close>

text \<open>The body of the \<^verbatim>\<open>for\<close> loop for a non-blank trimmed line at index \<open>i\<close>:
  the images array after the iteration.\<close>

definition parse_line :: "nat \<Rightarrow> string \<Rightarrow> ImageData list \<Rightarrow> ImageData list" where
  "parse_line i line images =
     (let cells = map clean_cell (split_on CHR '','' line);
          id0 = cell_at cells 0;
          url0 = cell_at cells 1;
          label0 = cell_at cells 2
      in if truthy url0 \<and> startsWith (the url0) ''http''
         then images @ [\<lparr>img_id = or_else id0 (decimal i), url = the url0,
                          label = or_else label0 ''Untitled'', comments = None\<rparr>]
         else images)"

function parseCSV_loop :: "string list \<Rightarrow> nat \<Rightarrow> ImageData list \<Rightarrow> ImageData list" where
  "parseCSV_loop lines i images =
     (if i < length lines
      then (let line = trim (lines ! i)
            in if line = [] then parseCSV_loop lines (Suc i) images
               else parseCSV_loop lines (Suc i) (parse_line i line images))
      else images)"
  by pat_completeness auto
termination
  by (relation "measure (\<lambda>(lines, i, images). length lines - i)") auto

declare parseCSV_loop.simps [simp del]

definition parseCSV :: "string \<Rightarrow> ImageData list" where
  "parseCSV csvText = parseCSV_loop (split_on CHR 0x0A csvText) 1 []"


section \<open>Errors, network and the local storage slot\<close>

text \<open>Every \<^verbatim>\<open>throw\<close> and every rejected promise of the sources is a value:
  \<^item> \<open>SyntaxError\<close>: \<^verbatim>\<open>JSON.parse\<close> throws;
  \<^item> \<open>UrlNotConfigured\<close>: \<^verbatim>\<open>Error('Google Sheets URL not configured')\<close>;
  \<^item> \<open>HttpError status\<close>: \<^verbatim>\<open>Error(`HTTP error! status: ...`)\<close>;
  \<^item> \<open>FetchRejected\<close>: the promise of \<^verbatim>\<open>fetch\<close> rejects (transport failure);
  \<^item> \<open>BodyRejected\<close>: the promise of \<^verbatim>\<open>response.text()\<close> rejects;
  \<^item> \<open>ImageNotFound\<close>: \<^verbatim>\<open>Error('Image not found')\<close>;
  \<^item> \<open>InvalidSheetsUrl\<close>: \<^verbatim>\<open>Error('Invalid Google Sheets URL')\<close>;
  \<^item> \<open>StorageError\<close>: \<^verbatim>\<open>localStorage.getItem\<close> or \<^verbatim>\<open>localStorage.setItem\<close> throws (storage
    refused, quota exceeded).\<close>

datatype error =
    SyntaxError
  | UrlNotConfigured
  | HttpError nat
  | FetchRejected
  | BodyRejected
  | ImageNotFound
  | InvalidSheetsUrl
  | StorageError

text \<open>What \<^verbatim>\<open>fetch(url)\<close> resolves to: the \<^verbatim>\<open>ok\<close> flag, the status and the body text
  (\<open>None\<close> when reading the body fails). The network maps a URL to a response, or to
  \<open>None\<close> when \<^verbatim>\<open>fetch\<close> rejects.\<close>

record response =
  ok :: bool
  status :: nat
  body :: "string option"

type_synonym network = "string \<Rightarrow> response option"

text \<open>The text stored under \<^verbatim>\<open>STORAGE_KEY\<close>, by what \<^verbatim>\<open>JSON.parse\<close> makes of it: the
  empty string (falsy, never parsed), a text on which \<^verbatim>\<open>JSON.parse\<close> throws, or the
  encoding of an \<^verbatim>\<open>ImageData[]\<close>. \<^verbatim>\<open>JSON.parse (JSON.stringify xs)\<close> gives back an array
  equal to \<open>xs\<close> field by field, which is what \<open>Encoded\<close> records. These are the texts of
  a store that only this service writes and whose calls succeed; the methods are first
  given on such a store. A text that parses to something else and storage calls that
  throw are added in the section on the service in any browser, where \<^verbatim>\<open>initializeData\<close>
  and \<^verbatim>\<open>fetchImages\<close> are given again in full.\<close>

datatype stored_text = EmptyText | Malformed | Encoded "ImageData list"

definition JSON_stringify :: "ImageData list \<Rightarrow> stored_text" where
  "JSON_stringify images = Encoded images"

definition JSON_parse :: "stored_text \<Rightarrow> error + ImageData list" where
  "JSON_parse t = (case t of Encoded images \<Rightarrow> Inr images | _ \<Rightarrow> Inl SyntaxError)"

section \<open>The service state\<close>

text \<open>The literal that initialises the module-level array \<^verbatim>\<open>DEMO_IMAGES\<close>.\<close>

definition DEMO_IMAGES :: "ImageData list" where
  "DEMO_IMAGES =
    [\<lparr>img_id = ''1'',
      url = ''https://images.unsplash.com/photo-1506905925346-21bda4d32df4?w=800&h=800&fit=crop'',
      label = ''Mountain Landscape'', comments = None\<rparr>,
     \<lparr>img_id = ''2'',
      url = ''https://images.unsplash.com/photo-1441974231531-c6227db76b6e?w=800&h=800&fit=crop'',
      label = ''Forest Path'', comments = None\<rparr>,
     \<lparr>img_id = ''3'',
      url = ''https://images.unsplash.com/photo-1506905925346-21bda4d32df4?w=800&h=800&fit=crop&auto=format&q=80'',
      label = ''Ocean Sunset'', comments = None\<rparr>,
     \<lparr>img_id = ''4'',
      url = ''https://images.unsplash.com/photo-1518837695005-2083093ee35b?w=800&h=800&fit=crop'',
      label = ''Desert Dunes'', comments = None\<rparr>,
     \<lparr>img_id = ''5'',
      url = ''https://images.unsplash.com/photo-1501594907352-04cda38ebc29?w=800&h=800&fit=crop'',
      label = ''Tropical Beach'', comments = None\<rparr>,
     \<lparr>img_id = ''6'',
      url = ''https://images.unsplash.com/photo-1447752875215-b2761acb3c5d?w=800&h=800&fit=crop'',
      label = ''Rolling Hills'', comments = None\<rparr>]"

text \<open>
  The state the service's methods read and write:
  \<^item> \<open>useMockData\<close>, \<open>sheetUrl\<close>: the fields of \<^verbatim>\<open>this.config\<close>;
  \<^item> \<open>localStorage\<close>: the item under \<^verbatim>\<open>STORAGE_KEY\<close> (\<open>None\<close>: \<^verbatim>\<open>getItem\<close> gives \<^verbatim>\<open>null\<close>);
  \<^item> \<open>demo_array\<close>: the present contents of the array object \<^verbatim>\<open>DEMO_IMAGES\<close>.
    \<^verbatim>\<open>const\<close> fixes the binding, not the contents: \<^verbatim>\<open>initializeData\<close> returns this very
    array, and its callers write into what they get.
\<close>

record service =
  useMockData :: bool
  sheetUrl :: "string option"
  localStorage :: "stored_text option"
  demo_array :: "ImageData list"

text \<open>\<^verbatim>\<open>new GoogleSheetsService()\<close> in a browser whose storage item is \<open>item\<close>.\<close>

definition new_service :: "stored_text option \<Rightarrow> service" where
  "new_service item =
     \<lparr>useMockData = True, sheetUrl = None, localStorage = item, demo_array = DEMO_IMAGES\<rparr>"

text \<open>An array a method holds: the shared array \<^verbatim>\<open>DEMO_IMAGES\<close> itself, or an array
  of its own (fresh from \<^verbatim>\<open>JSON.parse\<close> or \<^verbatim>\<open>parseCSV\<close>).\<close>

datatype images_ref = DemoArray | FreshArray "ImageData list"

definition contents_of :: "service \<Rightarrow> images_ref \<Rightarrow> ImageData list" where
  "contents_of s r = (case r of DemoArray \<Rightarrow> demo_array s | FreshArray images \<Rightarrow> images)"

text \<open>Writing \<open>images'\<close> through a reference: only a write to the shared array is
  seen by the service afterwards.\<close>

definition write_through :: "images_ref \<Rightarrow> ImageData list \<Rightarrow> service \<Rightarrow> service" where
  "write_through r images' s =
     (case r of DemoArray \<Rightarrow> s\<lparr>demo_array := images'\<rparr> | FreshArray _ \<Rightarrow> s)"

text \<open>The snapshot a caller sees in the result of \<^verbatim>\<open>initializeData\<close> or \<^verbatim>\<open>fetchImages\<close>.\<close>

definition snapshot_of :: "(error + images_ref) \<times> service \<Rightarrow> ImageData list option" where
  "snapshot_of res =
     (case fst res of Inl e \<Rightarrow> None | Inr r \<Rightarrow> Some (contents_of (snd res) r))"

section \<open>The methods of GoogleSheetsService\<close>

text \<open>\<^verbatim>\<open>initializeData\<close> on a store whose calls succeed and whose text is one of
  \<open>stored_text\<close>; \<open>seed_demo\<close> is its last two statements, the write of the demo array
  and the return of that array. \<open>initializeData_in_browser\<close> below is the same method with
  nothing assumed of the store, and agrees with this one where the assumptions hold
  (lemma \<open>initializeData_in_browser_agrees\<close>).\<close>

definition seed_demo :: "service \<Rightarrow> (error + images_ref) \<times> service" where
  "seed_demo s = (Inr DemoArray, s\<lparr>localStorage := Some (JSON_stringify (demo_array s))\<rparr>)"

definition initializeData :: "service \<Rightarrow> (error + images_ref) \<times> service" where
  "initializeData s =
     (case localStorage s of
        None \<Rightarrow> seed_demo s
      | Some stored \<Rightarrow>
          if stored = EmptyText then seed_demo s
          else (case JSON_parse stored of
                  Inr images \<Rightarrow> (Inr (FreshArray images), s)
                | Inl e \<Rightarrow> seed_demo s))"

text \<open>The body of the \<^verbatim>\<open>try\<close> block of \<^verbatim>\<open>fetchImages\<close>, as a function of the network and
  of \<^verbatim>\<open>this.config.sheetUrl\<close>.\<close>

definition fetch_csv :: "network \<Rightarrow> string option \<Rightarrow> error + ImageData list" where
  "fetch_csv net configured =
     (case configured of
        None \<Rightarrow> Inl UrlNotConfigured
      | Some u \<Rightarrow>
          if u = [] then Inl UrlNotConfigured
          else (case net u of
                  None \<Rightarrow> Inl FetchRejected
                | Some r \<Rightarrow>
                    if \<not> ok r then Inl (HttpError (status r))
                    else (case body r of
                            None \<Rightarrow> Inl BodyRejected
                          | Some csvText \<Rightarrow> Inr (parseCSV csvText))))"

definition fetch_remote :: "network \<Rightarrow> service \<Rightarrow> error + ImageData list" where
  "fetch_remote net s = fetch_csv net (sheetUrl s)"

definition fetchImages :: "network \<Rightarrow> service \<Rightarrow> (error + images_ref) \<times> service" where
  "fetchImages net s =
     (if useMockData s then initializeData s
      else (case fetch_remote net s of
              Inr images \<Rightarrow> (Inr (FreshArray images), s)
            | Inl e \<Rightarrow> initializeData s))"

text \<open>\<^verbatim>\<open>findIndex\<close>: \<open>None\<close> stands for \<open>-1\<close>.\<close>

fun findIndex :: "('a \<Rightarrow> bool) \<Rightarrow> 'a list \<Rightarrow> nat option" where
  "findIndex P [] = None"
| "findIndex P (x # xs) = (if P x then Some 0 else map_option Suc (findIndex P xs))"

definition updateImageLabel :: "string \<Rightarrow> string \<Rightarrow> service \<Rightarrow> (error + unit) \<times> service" where
  "updateImageLabel i newLabel s =
     (case initializeData s of
        (Inl e, s1) \<Rightarrow> (Inl e, s1)
      | (Inr r, s1) \<Rightarrow>
          (let images = contents_of s1 r
           in case findIndex (\<lambda>img. img_id img = i) images of
                None \<Rightarrow> (Inl ImageNotFound, s1)
              | Some k \<Rightarrow>
                  (let images' = images[k := (images ! k)\<lparr>label := newLabel\<rparr>]
                   in (Inr (), (write_through r images' s1)
                                 \<lparr>localStorage := Some (JSON_stringify images')\<rparr>))))"

text \<open>\<^verbatim>\<open>Date.now().toString()\<close> for the clock reading \<open>now\<close> (milliseconds since the
  epoch, negative before it).\<close>

definition number_toString :: "int \<Rightarrow> string" where
  "number_toString n = (if n < 0 then CHR ''-'' # decimal (nat (- n)) else decimal (nat n))"

definition addImage :: "int \<Rightarrow> string \<Rightarrow> string \<Rightarrow> service \<Rightarrow> (error + ImageData) \<times> service" where
  "addImage now u l s =
     (case initializeData s of
        (Inl e, s1) \<Rightarrow> (Inl e, s1)
      | (Inr r, s1) \<Rightarrow>
          (let images = contents_of s1 r;
               newImage = \<lparr>img_id = number_toString now, url = u, label = l, comments = None\<rparr>;
               images' = images @ [newImage]
           in (Inr newImage, (write_through r images' s1)
                               \<lparr>localStorage := Some (JSON_stringify images')\<rparr>)))"

definition deleteImage :: "string \<Rightarrow> service \<Rightarrow> (error + unit) \<times> service" where
  "deleteImage i s =
     (case initializeData s of
        (Inl e, s1) \<Rightarrow> (Inl e, s1)
      | (Inr r, s1) \<Rightarrow>
          (let images = contents_of s1 r;
               filteredImages = filter (\<lambda>img. img_id img \<noteq> i) images
           in (Inr (), s1\<lparr>localStorage := Some (JSON_stringify filteredImages)\<rparr>)))"

definition setSheetUrl :: "string \<Rightarrow> service \<Rightarrow> service" where
  "setSheetUrl u s = s\<lparr>sheetUrl := Some u, useMockData := False\<rparr>"

definition resetToDemo :: "service \<Rightarrow> service" where
  "resetToDemo s = s\<lparr>useMockData := True, localStorage := None\<rparr>"

section \<open>The service in any browser\<close>

text \<open>
  What \<^verbatim>\<open>initializeData\<close> and \<^verbatim>\<open>fetchImages\<close> do when nothing is assumed of the storage.
  The text under the key is one of the texts above or \<open>NotImages\<close>: a text that
  \<^verbatim>\<open>JSON.parse\<close> accepts and whose value is not an \<^verbatim>\<open>ImageData[]\<close> (\<^verbatim>\<open>null\<close>, \<^verbatim>\<open>{}\<close>,
  \<^verbatim>\<open>[null]\<close>). \<^verbatim>\<open>localStorage.getItem\<close> and \<^verbatim>\<open>localStorage.setItem\<close> may throw; in
  \<^verbatim>\<open>initializeData\<close> both stand outside the \<^verbatim>\<open>try\<close> block, which holds \<^verbatim>\<open>JSON.parse\<close> alone,
  and in \<^verbatim>\<open>fetchImages\<close> the fallback call stands inside the \<^verbatim>\<open>catch\<close> block, so nothing
  catches what they throw.
\<close>

datatype slot_text = Text stored_text | NotImages

record browser_service =
  b_useMockData :: bool
  b_sheetUrl :: "string option"
  b_demo_array :: "ImageData list"
  item :: "slot_text option"
  getItem_throws :: bool
  setItem_throws :: bool

text \<open>What a caller of \<^verbatim>\<open>initializeData\<close> or \<^verbatim>\<open>fetchImages\<close> receives: an array of images,
  or the value \<^verbatim>\<open>JSON.parse\<close> gave, returned as it is, which is no such array.\<close>

datatype returned = Snapshot images_ref | Unchecked

definition getItem :: "browser_service \<Rightarrow> error + slot_text option" where
  "getItem b = (if getItem_throws b then Inl StorageError else Inr (item b))"

definition setItem :: "ImageData list \<Rightarrow> browser_service \<Rightarrow> error + browser_service" where
  "setItem images b =
     (if setItem_throws b then Inl StorageError
      else Inr (b\<lparr>item := Some (Text (JSON_stringify images))\<rparr>))"

definition parse_item :: "slot_text \<Rightarrow> error + returned" where
  "parse_item t =
     (case t of
        NotImages \<Rightarrow> Inr Unchecked
      | Text stored \<Rightarrow>
          (case JSON_parse stored of
             Inl e \<Rightarrow> Inl e
           | Inr images \<Rightarrow> Inr (Snapshot (FreshArray images))))"

definition seed_demo_in_browser :: "browser_service \<Rightarrow> (error + returned) \<times> browser_service" where
  "seed_demo_in_browser b =
     (case setItem (b_demo_array b) b of
        Inl e \<Rightarrow> (Inl e, b)
      | Inr b' \<Rightarrow> (Inr (Snapshot DemoArray), b'))"

definition initializeData_in_browser ::
  "browser_service \<Rightarrow> (error + returned) \<times> browser_service" where
  "initializeData_in_browser b =
     (case getItem b of
        Inl e \<Rightarrow> (Inl e, b)
      | Inr None \<Rightarrow> seed_demo_in_browser b
      | Inr (Some stored) \<Rightarrow>
          if stored = Text EmptyText then seed_demo_in_browser b
          else (case parse_item stored of
                  Inr v \<Rightarrow> (Inr v, b)
                | Inl e \<Rightarrow> seed_demo_in_browser b))"

definition fetchImages_in_browser ::
  "network \<Rightarrow> browser_service \<Rightarrow> (error + returned) \<times> browser_service" where
  "fetchImages_in_browser net b =
     (if b_useMockData b then initializeData_in_browser b
      else (case fetch_csv net (b_sheetUrl b) of
              Inr images \<Rightarrow> (Inr (Snapshot (FreshArray images)), b)
            | Inl e \<Rightarrow> initializeData_in_browser b))"

text \<open>The snapshot in a result, if the result is one.\<close>

definition returned_snapshot ::
  "(error + returned) \<times> browser_service \<Rightarrow> ImageData list option" where
  "returned_snapshot res =
     (case fst res of
        Inr (Snapshot DemoArray) \<Rightarrow> Some (b_demo_array (snd res))
      | Inr (Snapshot (FreshArray images)) \<Rightarrow> Some images
      | _ \<Rightarrow> None)"

text \<open>A state of the service above as a state in a browser: the same configuration, demo
  array and text, in a storage that does not throw.\<close>

definition in_browser :: "service \<Rightarrow> browser_service" where
  "in_browser s =
     \<lparr>b_useMockData = useMockData s, b_sheetUrl = sheetUrl s, b_demo_array = demo_array s,
      item = map_option Text (localStorage s), getItem_throws = False, setItem_throws = False\<rparr>"

section \<open>convertToCSVUrl (GoogleSheetsSetup)\<close>

text \<open>The class \<^verbatim>\<open>[a-zA-Z0-9-_]\<close>: letters, digits, hyphen and underscore.\<close>

definition is_sheet_id_char :: "char \<Rightarrow> bool" where
  "is_sheet_id_char c \<longleftrightarrow>
     (let n = (of_char c :: nat)
      in (97 \<le> n \<and> n \<le> 122) \<or> (65 \<le> n \<and> n \<le> 90) \<or> (48 \<le> n \<and> n \<le> 57) \<or>
         c = CHR ''-'' \<or> c = CHR ''_'')"

text \<open>\<^verbatim>\<open>url.match(/\/spreadsheets\/d\/([a-zA-Z0-9-_]+)/)\<close>. The pattern begins with the
  16 literal characters \<open>sheet_prefix\<close>. \<open>regex_group_at u\<close> is the attempt to match at
  the very start of \<open>u\<close>: the literal, then the longest non-empty run of characters of
  the class, which is the captured group. \<open>match_sheet_id\<close> tries every start position
  from the left and keeps the first success; \<open>None\<close> is \<^verbatim>\<open>null\<close>.\<close>

definition sheet_prefix :: string where
  "sheet_prefix = ''/spreadsheets/d/''"

definition regex_group_at :: "string \<Rightarrow> string option" where
  "regex_group_at u =
     (let run = takeWhile is_sheet_id_char (drop (length sheet_prefix) u)
      in if startsWith u sheet_prefix \<and> run \<noteq> [] then Some run else None)"

fun match_sheet_id :: "string \<Rightarrow> string option" where
  "match_sheet_id [] = None"
| "match_sheet_id (c # cs) =
     (case regex_group_at (c # cs) of
        Some sheetId \<Rightarrow> Some sheetId
      | None \<Rightarrow> match_sheet_id cs)"

definition convertToCSVUrl :: "string \<Rightarrow> error + string" where
  "convertToCSVUrl u =
     (case match_sheet_id u of
        None \<Rightarrow> Inl InvalidSheetsUrl
      | Some sheetId \<Rightarrow>
          Inr (''https://docs.google.com/spreadsheets/d/e/'' @ sheetId @ ''/pub?output=csv''))"

section \<open>Notions of the specification\<close>

text \<open>
  The CSV contract, written without the functions of \<^verbatim>\<open>parseCSV\<close>.
  \<^item> \<open>spec_white_space\<close>, \<open>spec_trim\<close>: the white-space characters, and a string without
    its leading and trailing white space;
  \<^item> \<open>spec_split\<close>: the pieces of a string between the occurrences of a separator;
  \<^item> \<open>spec_numeral\<close>: the decimal numeral of a number;
  \<^item> \<open>spec_unquote\<close>: a field enclosed in a pair of double quotes loses the pair, any
    other field is left as it is;
  \<^item> \<open>either_unquote\<close>: a field loses a double quote at its start if it has one, and a
    double quote at its end if it has one, the one whether or not the other is there.
  \<open>contract_record prepare unquote k line\<close> is the record of the line with index \<open>k\<close>, the
  index counting every line after the header from 1, blank and rejected lines included:
  no record for a blank line; otherwise the first three comma-separated pieces of
  \<open>prepare line\<close>, each unquoted and then trimmed, are id, url and label, a missing piece
  being empty; the record is accepted when url is non-empty and begins with \<open>http\<close>; an
  empty id becomes the numeral of \<open>k\<close>, an empty label \<open>Untitled\<close>.
  \<open>spec_parseCSV\<close> is the contract in the words of the specification: the line is split
  as it stands and a field loses an enclosing pair of quotes. \<open>amended_parseCSV\<close> trims
  the line before it is split and strips the two quotes independently.
\<close>

definition spec_white_space :: "char \<Rightarrow> bool" where
  "spec_white_space c \<longleftrightarrow>
     c \<in> set [CHR 0x09, CHR 0x0A, CHR 0x0B, CHR 0x0C, CHR 0x0D, CHR 0x20, CHR 0xA0]"

definition spec_trim :: "string \<Rightarrow> string" where
  "spec_trim s =
     (let t = dropWhile spec_white_space s
      in take (length t - length (takeWhile spec_white_space (rev t))) t)"

text \<open>\<open>spec_pieces sep piece s\<close>: the pieces of \<open>s\<close>, the first one after the characters
  already read, kept in \<open>piece\<close> in reverse.\<close>

fun spec_pieces :: "char \<Rightarrow> string \<Rightarrow> string \<Rightarrow> string list" where
  "spec_pieces sep piece [] = [rev piece]"
| "spec_pieces sep piece (c # cs) =
     (if c = sep then rev piece # spec_pieces sep [] cs else spec_pieces sep (c # piece) cs)"

definition spec_split :: "char \<Rightarrow> string \<Rightarrow> string list" where
  "spec_split sep s = spec_pieces sep [] s"

fun spec_digits :: "nat \<Rightarrow> string" where
  "spec_digits n =
     (if n < 10 then [''0123456789'' ! n]
      else (''0123456789'' ! (n mod 10)) # spec_digits (n div 10))"

declare spec_digits.simps [simp del]

definition spec_numeral :: "nat \<Rightarrow> string" where
  "spec_numeral n = rev (spec_digits n)"

definition spec_unquote :: "string \<Rightarrow> string" where
  "spec_unquote f =
     (if 2 \<le> length f \<and> hd f = CHR 0x22 \<and> last f = CHR 0x22 then butlast (tl f) else f)"

definition either_unquote :: "string \<Rightarrow> string" where
  "either_unquote f =
     (let g = (if f \<noteq> [] \<and> hd f = CHR 0x22 then tl f else f)
      in if g \<noteq> [] \<and> last g = CHR 0x22 then butlast g else g)"

definition contract_record ::
  "(string \<Rightarrow> string) \<Rightarrow> (string \<Rightarrow> string) \<Rightarrow> nat \<Rightarrow> string \<Rightarrow> ImageData option" where
  "contract_record prepare unquote k line =
     (let fields = map (\<lambda>f. spec_trim (unquote f)) (take 3 (spec_split CHR '','' (prepare line)));
          field = (\<lambda>j. if j < length fields then fields ! j else [])
      in if spec_trim line = [] then None
         else if field 1 \<noteq> [] \<and> take 4 (field 1) = ''http''
         then Some \<lparr>img_id = (if field 0 = [] then spec_numeral k else field 0),
                     url = field 1,
                     label = (if field 2 = [] then ''Untitled'' else field 2),
                     comments = None\<rparr>
         else None)"

definition contract_parseCSV ::
  "(string \<Rightarrow> string) \<Rightarrow> (string \<Rightarrow> string) \<Rightarrow> string \<Rightarrow> ImageData list" where
  "contract_parseCSV prepare unquote csvText =
     List.map_filter (\<lambda>(k, line). contract_record prepare unquote k line)
       (enumerate 1 (tl (spec_split CHR 0x0A csvText)))"

definition spec_parseCSV :: "string \<Rightarrow> ImageData list" where
  "spec_parseCSV = contract_parseCSV (\<lambda>line. line) spec_unquote"

definition amended_parseCSV :: "string \<Rightarrow> ImageData list" where
  "amended_parseCSV = contract_parseCSV spec_trim either_unquote"

text \<open>The cache slot holds nothing \<^verbatim>\<open>initializeData\<close> can use: no item, the empty
  string, or a text \<^verbatim>\<open>JSON.parse\<close> rejects.\<close>

definition cache_empty_or_corrupt :: "service \<Rightarrow> bool" where
  "cache_empty_or_corrupt s \<longleftrightarrow>
     localStorage s = None \<or> localStorage s = Some EmptyText \<or> localStorage s = Some Malformed"

text \<open>The adapter failures in Remote mode, for the configured endpoint: none or an empty
  one, a rejected \<^verbatim>\<open>fetch\<close>, a response that is not \<^verbatim>\<open>ok\<close>, a body that cannot be read.\<close>

definition adapter_failure :: "network \<Rightarrow> string option \<Rightarrow> bool" where
  "adapter_failure net configured \<longleftrightarrow>
     configured = None \<or> configured = Some [] \<or>
     (\<exists>u. configured = Some u \<and>
        (net u = None \<or> (\<exists>r. net u = Some r \<and> (\<not> ok r \<or> body r = None))))"

text \<open>The text under the key encodes an image array; and: there is no text, or one that
  \<^verbatim>\<open>initializeData\<close> cannot use (empty, or rejected by \<^verbatim>\<open>JSON.parse\<close>).\<close>

definition item_usable :: "browser_service \<Rightarrow> bool" where
  "item_usable b \<longleftrightarrow> (\<exists>images. item b = Some (Text (Encoded images)))"

definition item_unusable :: "browser_service \<Rightarrow> bool" where
  "item_unusable b \<longleftrightarrow>
     item b = None \<or> item b = Some (Text EmptyText) \<or> item b = Some (Text Malformed)"

text \<open>The endpoint pattern as the specification words it, \<^verbatim>\<open>/spreadsheets/d/<SHEET_ID>/\<close>:
  the literal \<^verbatim>\<open>/spreadsheets/d/\<close>, a non-empty identifier without a slash, and the
  closing slash; \<open>edit_pattern_at\<close> at the start of the string, \<open>spec_edit_pattern\<close>
  anywhere in it.\<close>

definition edit_pattern_at :: "string \<Rightarrow> bool" where
  "edit_pattern_at u \<longleftrightarrow>
     startsWith u sheet_prefix \<and>
     (let after = drop (length sheet_prefix) u;
          sid = takeWhile (\<lambda>x. x \<noteq> CHR ''/'') after
      in sid \<noteq> [] \<and> length sid < length after)"

fun spec_edit_pattern :: "string \<Rightarrow> bool" where
  "spec_edit_pattern [] = False"
| "spec_edit_pattern (c # cs) = (edit_pattern_at (c # cs) \<or> spec_edit_pattern cs)"

text \<open>The pattern without the closing slash: \<^verbatim>\<open>/spreadsheets/d/\<close> followed by one
  character of the identifier class; \<open>sheet_pattern_at\<close> at the start of the string,
  \<open>has_sheet_pattern\<close> anywhere in it.\<close>

definition sheet_pattern_at :: "string \<Rightarrow> bool" where
  "sheet_pattern_at u \<longleftrightarrow>
     startsWith u sheet_prefix \<and>
     (case drop (length sheet_prefix) u of [] \<Rightarrow> False | x # _ \<Rightarrow> is_sheet_id_char x)"

fun has_sheet_pattern :: "string \<Rightarrow> bool" where
  "has_sheet_pattern [] = False"
| "has_sheet_pattern (c # cs) = (sheet_pattern_at (c # cs) \<or> has_sheet_pattern cs)"

text \<open>Modelled from the spec: \<^verbatim>\<open>updateImageComments\<close>, which the page component calls
  (\<^verbatim>\<open>handleUpdateComments\<close>) and the class \<^verbatim>\<open>GoogleSheetsService\<close> of the sources does not
  define. The specification gives it the contract of \<^verbatim>\<open>updateLabel\<close> for the comments
  field: \<open>updateImageLabel\<close> with \<open>comments\<close> in place of \<open>label\<close>.\<close>

definition updateImageComments :: "string \<Rightarrow> string \<Rightarrow> service \<Rightarrow> (error + unit) \<times> service" where
  "updateImageComments i newComments s =
     (case initializeData s of
        (Inl e, s1) \<Rightarrow> (Inl e, s1)
      | (Inr r, s1) \<Rightarrow>
          (let images = contents_of s1 r
           in case findIndex (\<lambda>img. img_id img = i) images of
                None \<Rightarrow> (Inl ImageNotFound, s1)
              | Some k \<Rightarrow>
                  (let images' = images[k := (images ! k)\<lparr>comments := Some newComments\<rparr>]
                   in (Inr (), (write_through r images' s1)
                                 \<lparr>localStorage := Some (JSON_stringify images')\<rparr>))))"

section \<open>Auxiliary facts\<close>

lemmas csv_eval = parseCSV_def parseCSV_loop.simps parse_line_def trim_def is_white_space_def
  clean_cell_def strip_leading_quote_def strip_trailing_quote_def cell_at_def truthy_def
  or_else_def startsWith_def decimal.simps digit_char_def

lemmas service_defs = initializeData_def seed_demo_def JSON_parse_def JSON_stringify_def
  contents_of_def write_through_def snapshot_of_def

lemma findIndex_None: "findIndex P xs = None \<longleftrightarrow> (\<forall>x \<in> set xs. \<not> P x)"
  by (induction xs) auto

lemma findIndex_Some:
  "findIndex P xs = Some k \<Longrightarrow> k < length xs \<and> P (xs ! k) \<and> (\<forall>j < k. \<not> P (xs ! j))"
proof (induction xs arbitrary: k)
  case Nil
  then show ?case by simp
next
  case (Cons x xs)
  show ?case
  proof (cases "P x")
    case True
    with Cons.prems show ?thesis by simp
  next
    case False
    with Cons.prems obtain k' where k': "findIndex P xs = Some k'" "k = Suc k'"
      by auto
    from Cons.IH [OF k'(1)] False k'(2) show ?thesis
      by (auto simp: nth_Cons split: nat.splits)
  qed
qed

lemma initializeData_cached:
  "localStorage s = Some (Encoded images) \<Longrightarrow> initializeData s = (Inr (FreshArray images), s)"
  by (simp add: service_defs)

lemma initializeData_seeds:
  "cache_empty_or_corrupt s \<Longrightarrow>
   initializeData s = (Inr DemoArray, s\<lparr>localStorage := Some (Encoded (demo_array s))\<rparr>)"
  by (auto simp: service_defs cache_empty_or_corrupt_def)

lemma cache_cases:
  "cache_empty_or_corrupt s \<or> (\<exists>images. localStorage s = Some (Encoded images))"
proof (cases "localStorage s")
  case None
  then show ?thesis by (simp add: cache_empty_or_corrupt_def)
next
  case (Some t)
  then show ?thesis by (cases t) (simp_all add: cache_empty_or_corrupt_def)
qed

lemma snapshot_initializeData:
  "snapshot_of (initializeData s) =
     Some (case localStorage s of Some (Encoded images) \<Rightarrow> images | _ \<Rightarrow> demo_array s)"
  using cache_cases [of s]
  by (auto simp: initializeData_cached initializeData_seeds snapshot_of_def contents_of_def
      cache_empty_or_corrupt_def)

lemma updateImageLabel_absent:
  assumes "snapshot_of (initializeData s) = Some images"
    and "i \<notin> img_id ` set images"
  shows "updateImageLabel i newLabel s = (Inl ImageNotFound, snd (initializeData s))"
proof -
  obtain r s1 where init: "initializeData s = (Inr r, s1)"
    using cache_cases [of s] by (auto simp: initializeData_cached initializeData_seeds)
  with assms(1) have "contents_of s1 r = images"
    by (simp add: snapshot_of_def)
  moreover from assms(2) have "findIndex (\<lambda>img. img_id img = i) images = None"
    by (auto simp: findIndex_None)
  ultimately show ?thesis
    by (simp add: updateImageLabel_def init)
qed

lemmas url_eval = convertToCSVUrl_def regex_group_at_def sheet_prefix_def startsWith_def
  is_sheet_id_char_def edit_pattern_at_def sheet_pattern_at_def

lemma takeWhile_nonempty:
  "takeWhile Q xs \<noteq> [] \<longleftrightarrow> (case xs of [] \<Rightarrow> False | x # _ \<Rightarrow> Q x)"
  by (cases xs) auto

lemma takeWhile_run:
  "list_all Q xs \<Longrightarrow> ys = [] \<or> \<not> Q (hd ys) \<Longrightarrow> takeWhile Q (xs @ ys) = xs"
  by (induction xs) (auto simp: takeWhile_eq_Nil_iff)

lemma startsWith_append: "startsWith (p @ r) p"
  by (simp add: startsWith_def)

lemma startsWith_split: "startsWith u p \<Longrightarrow> u = p @ drop (length p) u"
  by (metis append_take_drop_id startsWith_def)

lemma regex_group_at_None: "regex_group_at u = None \<longleftrightarrow> \<not> sheet_pattern_at u"
  by (simp add: regex_group_at_def sheet_pattern_at_def Let_def takeWhile_nonempty)

lemma regex_group_at_Some:
  assumes "regex_group_at u = Some g"
  shows "g \<noteq> [] \<and> list_all is_sheet_id_char g \<and>
         (\<exists>rest. u = sheet_prefix @ g @ rest \<and> (rest = [] \<or> \<not> is_sheet_id_char (hd rest)))"
proof -
  let ?after = "drop (length sheet_prefix) u"
  from assms have sw: "startsWith u sheet_prefix"
    and g: "g = takeWhile is_sheet_id_char ?after" and ne: "g \<noteq> []"
    by (auto simp: regex_group_at_def Let_def split: if_splits)
  have "list_all is_sheet_id_char g"
    unfolding g by (auto simp: list_all_iff dest: set_takeWhileD)
  moreover have "u = sheet_prefix @ g @ dropWhile is_sheet_id_char ?after"
    using startsWith_split [OF sw] by (simp add: g)
  moreover have "dropWhile is_sheet_id_char ?after = [] \<or>
      \<not> is_sheet_id_char (hd (dropWhile is_sheet_id_char ?after))"
    using hd_dropWhile [of is_sheet_id_char ?after] by blast
  ultimately show ?thesis using ne by blast
qed

lemma regex_group_at_run:
  "g \<noteq> [] \<Longrightarrow> list_all is_sheet_id_char g \<Longrightarrow> rest = [] \<or> \<not> is_sheet_id_char (hd rest) \<Longrightarrow>
   regex_group_at (sheet_prefix @ g @ rest) = Some g"
  by (simp add: regex_group_at_def startsWith_append takeWhile_run)

lemma sheet_pattern_at_iff:
  "sheet_pattern_at u \<longleftrightarrow> (\<exists>c rest. u = sheet_prefix @ c # rest \<and> is_sheet_id_char c)"
proof
  assume "sheet_pattern_at u"
  then obtain x xs where "startsWith u sheet_prefix" "drop (length sheet_prefix) u = x # xs"
    "is_sheet_id_char x"
    by (auto simp: sheet_pattern_at_def split: list.splits)
  with startsWith_split [of u sheet_prefix] show "\<exists>c rest. u = sheet_prefix @ c # rest \<and> is_sheet_id_char c"
    by metis
next
  assume "\<exists>c rest. u = sheet_prefix @ c # rest \<and> is_sheet_id_char c"
  then show "sheet_pattern_at u"
    by (auto simp: sheet_pattern_at_def startsWith_append)
qed

lemma sheet_pattern_at_prefix:
  assumes "length sheet_prefix < length v"
  shows "sheet_pattern_at (v @ w) = sheet_pattern_at v"
proof -
  from assms obtain x xs where d: "drop (length sheet_prefix) v = x # xs"
    by (cases "drop (length sheet_prefix) v") auto
  from assms have t: "take (length sheet_prefix) (v @ w) = take (length sheet_prefix) v"
    by simp
  from assms d have dr: "drop (length sheet_prefix) (v @ w) = x # xs @ w"
    by simp
  show ?thesis
    unfolding sheet_pattern_at_def startsWith_def t dr d by simp
qed

lemma match_None_iff: "match_sheet_id u = None \<longleftrightarrow> \<not> has_sheet_pattern u"
  by (induction u) (auto simp: regex_group_at_None [symmetric] split: option.splits)

lemma has_sheet_pattern_append:
  "has_sheet_pattern u \<Longrightarrow> has_sheet_pattern (pre @ u)"
proof (induction pre)
  case Nil
  then show ?case by simp
next
  case (Cons a pre)
  then show ?case by simp
qed

lemma has_sheet_pattern_iff:
  "has_sheet_pattern u \<longleftrightarrow>
     (\<exists>pre c rest. u = pre @ sheet_prefix @ c # rest \<and> is_sheet_id_char c)"
proof
  show "has_sheet_pattern u \<Longrightarrow> \<exists>pre c rest. u = pre @ sheet_prefix @ c # rest \<and> is_sheet_id_char c"
  proof (induction u)
    case Nil
    then show ?case by simp
  next
    case (Cons a u)
    show ?case
    proof (cases "sheet_pattern_at (a # u)")
      case True
      then obtain c rest where "a # u = [] @ sheet_prefix @ c # rest" "is_sheet_id_char c"
        by (auto simp: sheet_pattern_at_iff)
      then show ?thesis by blast
    next
      case False
      with Cons.prems have "has_sheet_pattern u" by simp
      from Cons.IH [OF this] obtain pre c rest
        where "u = pre @ sheet_prefix @ c # rest" "is_sheet_id_char c" by blast
      then have "a # u = (a # pre) @ sheet_prefix @ c # rest \<and> is_sheet_id_char c" by simp
      then show ?thesis by blast
    qed
  qed
next
  assume "\<exists>pre c rest. u = pre @ sheet_prefix @ c # rest \<and> is_sheet_id_char c"
  then obtain pre c rest where u: "u = pre @ sheet_prefix @ c # rest" and c: "is_sheet_id_char c"
    by blast
  from c have "sheet_pattern_at (sheet_prefix @ c # rest)"
    by (auto simp: sheet_pattern_at_iff)
  then have "has_sheet_pattern (sheet_prefix @ c # rest)"
    by (simp add: sheet_prefix_def)
  then show "has_sheet_pattern u"
    unfolding u by (rule has_sheet_pattern_append)
qed

lemma match_Some_run:
  "match_sheet_id u = Some g \<Longrightarrow> g \<noteq> [] \<and> list_all is_sheet_id_char g"
  by (induction u) (auto split: option.splits dest: regex_group_at_Some)

lemma match_leftmost:
  assumes "g \<noteq> []" "list_all is_sheet_id_char g" "rest = [] \<or> \<not> is_sheet_id_char (hd rest)"
    and "\<not> has_sheet_pattern (pre @ sheet_prefix)"
  shows "match_sheet_id (pre @ sheet_prefix @ g @ rest) = Some g"
  using assms(4)
proof (induction pre)
  case Nil
  have "regex_group_at (sheet_prefix @ g @ rest) = Some g"
    using assms(1-3) by (rule regex_group_at_run)
  moreover have "sheet_prefix @ g @ rest = CHR ''/'' # tl (sheet_prefix @ g @ rest)"
    by (simp add: sheet_prefix_def)
  ultimately show ?case
    by (metis append_Nil match_sheet_id.simps(2) option.simps(5))
next
  case (Cons a pre)
  from Cons.prems have no_here: "\<not> sheet_pattern_at (a # pre @ sheet_prefix)"
    and no_later: "\<not> has_sheet_pattern (pre @ sheet_prefix)"
    by simp_all
  have "sheet_pattern_at ((a # pre @ sheet_prefix) @ g @ rest) = sheet_pattern_at (a # pre @ sheet_prefix)"
    by (rule sheet_pattern_at_prefix) simp
  with no_here have "regex_group_at (a # pre @ sheet_prefix @ g @ rest) = None"
    by (simp add: regex_group_at_None)
  with Cons.IH [OF no_later] show ?case by simp
qed

lemma resetToDemo_fetch_intact:
  "snapshot_of (fetchImages net (resetToDemo s)) = Some (demo_array s)"
  by (simp add: fetchImages_def resetToDemo_def service_defs)

lemma parse_line_comments:
  "\<forall>r \<in> set images. comments r = None \<Longrightarrow> \<forall>r \<in> set (parse_line i line images). comments r = None"
  by (simp add: parse_line_def Let_def)

lemma parseCSV_loop_comments:
  "\<forall>r \<in> set images. comments r = None \<Longrightarrow>
   \<forall>r \<in> set (parseCSV_loop lines i images). comments r = None"
proof (induction lines i images rule: parseCSV_loop.induct)
  case (1 lines i images)
  show ?case
  proof (cases "i < length lines")
    case False
    with "1.prems" show ?thesis by (simp add: parseCSV_loop.simps [of lines i])
  next
    case True
    show ?thesis
    proof (cases "trim (lines ! i) = []")
      case blank: True
      from "1.IH"(1) [OF True refl blank "1.prems"] True blank show ?thesis
        by (simp add: parseCSV_loop.simps [of lines i])
    next
      case nonblank: False
      from "1.IH"(2) [OF True refl nonblank parse_line_comments [OF "1.prems"]] True nonblank
      show ?thesis
        by (simp add: parseCSV_loop.simps [of lines i])
    qed
  qed
qed

lemma initializeData_Inr:
  "snapshot_of (initializeData s) = Some images \<Longrightarrow>
   \<exists>r s1. initializeData s = (Inr r, s1) \<and> contents_of s1 r = images \<and>
     (r = DemoArray \<longrightarrow> cache_empty_or_corrupt s)"
  using cache_cases [of s]
  by (auto simp: initializeData_cached initializeData_seeds snapshot_of_def)

lemma addImage_result:
  assumes "snapshot_of (initializeData s) = Some images"
  shows "fst (addImage now u l s) =
           Inr \<lparr>img_id = number_toString now, url = u, label = l, comments = None\<rparr> \<and>
         localStorage (snd (addImage now u l s)) =
           Some (JSON_stringify
             (images @ [\<lparr>img_id = number_toString now, url = u, label = l, comments = None\<rparr>]))"
proof -
  from initializeData_Inr [OF assms] obtain r s1
    where "initializeData s = (Inr r, s1)" "contents_of s1 r = images" by blast
  then show ?thesis by (simp add: addImage_def Let_def)
qed

lemmas contract_eval = spec_parseCSV_def amended_parseCSV_def contract_parseCSV_def
  contract_record_def spec_trim_def spec_white_space_def spec_split_def spec_unquote_def
  either_unquote_def spec_numeral_def spec_digits.simps List.map_filter_simps enumerate_simps
  Let_def

lemma split_on_not_Nil: "split_on sep s \<noteq> []"
  by (induction s) (auto split: list.splits)

lemma spec_pieces_split_on:
  "spec_pieces sep piece s = (rev piece @ hd (split_on sep s)) # tl (split_on sep s)"
proof (induction s arbitrary: piece)
  case Nil
  show ?case by simp
next
  case (Cons c s)
  obtain w ws where w: "split_on sep s = w # ws"
    using split_on_not_Nil [of sep s] by (cases "split_on sep s") auto
  show ?case
    by (simp add: Cons.IH w)
qed

lemma split_on_spec: "split_on sep s = spec_split sep s"
  using split_on_not_Nil [of sep s]
  by (simp add: spec_split_def spec_pieces_split_on)

lemma startsWith_http: "startsWith s ''http'' \<longleftrightarrow> take 4 s = ''http''"
  by (simp add: startsWith_def eval_nat_numeral)

lemma white_space_spec: "is_white_space = spec_white_space"
  by (auto simp: fun_eq_iff is_white_space_def spec_white_space_def)

lemma rev_dropWhile_rev:
  "rev (dropWhile P (rev t)) = take (length t - length (takeWhile P (rev t))) t"
proof -
  have "rev t = takeWhile P (rev t) @ dropWhile P (rev t)"
    by simp
  then have "t = rev (dropWhile P (rev t)) @ rev (takeWhile P (rev t))"
    by (metis rev_append rev_rev_ident)
  moreover have "length (rev (dropWhile P (rev t))) = length t - length (takeWhile P (rev t))"
    by (metis length_rev length_append takeWhile_dropWhile_id add_diff_cancel_left')
  ultimately show ?thesis
    by (metis append_eq_conv_conj)
qed

lemma trim_spec: "trim s = spec_trim s"
  by (simp add: trim_def spec_trim_def white_space_spec rev_dropWhile_rev Let_def)

lemma decimal_spec: "decimal n = spec_numeral n"
proof (induction n rule: decimal.induct)
  case (1 n)
  show ?case
  proof (cases "n < 10")
    case True
    then show ?thesis
      by (simp add: decimal.simps [of n] spec_numeral_def spec_digits.simps [of n] digit_char_def)
  next
    case False
    with "1.IH" show ?thesis
      by (simp add: decimal.simps [of n] spec_numeral_def spec_digits.simps [of n] digit_char_def)
  qed
qed

lemma strip_quotes_spec:
  "strip_trailing_quote (strip_leading_quote f) = either_unquote f"
  by (cases f) (simp_all add: strip_trailing_quote_def strip_leading_quote_def either_unquote_def)

lemma clean_cell_spec: "clean_cell f = spec_trim (either_unquote f)"
  by (simp add: clean_cell_def strip_quotes_spec trim_spec)

lemma cell_at_take3: "k < 3 \<Longrightarrow> cell_at cells k = cell_at (take 3 cells) k"
  by (simp add: cell_at_def)

lemma parse_line_contract:
  "trim l \<noteq> [] \<Longrightarrow>
   parse_line i (trim l) images =
     images @ (case contract_record spec_trim either_unquote i l of None \<Rightarrow> [] | Some r \<Rightarrow> [r])"
proof -
  assume nb: "trim l \<noteq> []"
  let ?cells = "map clean_cell (split_on CHR '','' (trim l))"
  let ?fields = "map (\<lambda>f. spec_trim (either_unquote f)) (take 3 (spec_split CHR '','' (spec_trim l)))"
  have f: "?fields = take 3 ?cells"
    by (simp add: take_map split_on_spec trim_spec clean_cell_spec [abs_def])
  have c: "cell_at ?cells k = (if k < length ?fields then Some (?fields ! k) else None)" if "k < 3" for k
    using that unfolding f by (auto simp: cell_at_def)
  have c0: "cell_at ?cells 0 = (if 0 < length ?fields then Some (?fields ! 0) else None)"
    and c1: "cell_at ?cells 1 = (if 1 < length ?fields then Some (?fields ! 1) else None)"
    and c2: "cell_at ?cells 2 = (if 2 < length ?fields then Some (?fields ! 2) else None)"
    using c [of 0] c [of 1] c [of 2] by simp_all
  from nb have nb': "spec_trim l \<noteq> []" by (simp add: trim_spec)
  show ?thesis
    unfolding parse_line_def contract_record_def Let_def c0 c1 c2
    using nb'
    by (simp add: truthy_def or_else_def startsWith_http decimal_spec)
qed

lemma contract_record_blank: "trim l = [] \<Longrightarrow> contract_record p u i l = None"
  by (simp add: contract_record_def trim_spec)

lemma parseCSV_loop_contract:
  "parseCSV_loop lines i images =
     images @ List.map_filter (\<lambda>(k, line). contract_record spec_trim either_unquote k line)
                (enumerate i (drop i lines))"
proof (induction lines i images rule: parseCSV_loop.induct)
  case (1 lines i images)
  show ?case
  proof (cases "i < length lines")
    case False
    then show ?thesis by (simp add: parseCSV_loop.simps [of lines i] List.map_filter_simps)
  next
    case True
    then have d: "drop i lines = lines ! i # drop (Suc i) lines"
      by (simp add: Cons_nth_drop_Suc)
    show ?thesis
    proof (cases "trim (lines ! i) = []")
      case blank: True
      with True "1.IH"(1) [OF True refl blank] show ?thesis
        by (simp add: parseCSV_loop.simps [of lines i] d List.map_filter_simps
            contract_record_blank)
    next
      case nonblank: False
      with True "1.IH"(2) [OF True refl nonblank] show ?thesis
        by (simp add: parseCSV_loop.simps [of lines i] d List.map_filter_simps
            parse_line_contract split: option.split)
    qed
  qed
qed

lemma parseCSV_amended: "parseCSV csvText = amended_parseCSV csvText"
proof -
  have "drop 1 (split_on CHR 0x0A csvText) = tl (spec_split CHR 0x0A csvText)"
    by (simp add: drop_Suc split_on_spec)
  then show ?thesis
    by (simp add: parseCSV_def amended_parseCSV_def contract_parseCSV_def parseCSV_loop_contract)
qed

lemma unquote_agree:
  "f = [] \<or> f \<noteq> [CHR 0x22] \<and> (hd f = CHR 0x22 \<longleftrightarrow> last f = CHR 0x22) \<Longrightarrow>
   either_unquote f = spec_unquote f"
proof (cases f)
  case Nil
  then show ?thesis by (simp add: either_unquote_def spec_unquote_def)
next
  case (Cons c cs)
  assume "f = [] \<or> f \<noteq> [CHR 0x22] \<and> (hd f = CHR 0x22 \<longleftrightarrow> last f = CHR 0x22)"
  with Cons show ?thesis
    by (cases cs) (auto simp: either_unquote_def spec_unquote_def)
qed

lemmas browser_defs = initializeData_in_browser_def seed_demo_in_browser_def getItem_def
  setItem_def parse_item_def JSON_parse_def JSON_stringify_def returned_snapshot_def

lemma fetch_csv_fails_iff: "(\<exists>e. fetch_csv net configured = Inl e) \<longleftrightarrow> adapter_failure net configured"
  by (auto simp: fetch_csv_def adapter_failure_def split: option.splits if_splits)

lemma item_cases: "item_usable b \<or> item_unusable b \<or> item b = Some NotImages"
proof (cases "item b")
  case None
  then show ?thesis by (simp add: item_unusable_def)
next
  case (Some t)
  show ?thesis
  proof (cases t)
    case (Text st)
    with Some show ?thesis by (cases st) (simp_all add: item_usable_def item_unusable_def)
  next
    case NotImages
    with Some show ?thesis by simp
  qed
qed

lemma initializeData_in_browser_usable:
  "\<not> getItem_throws b \<Longrightarrow> item b = Some (Text (Encoded images)) \<Longrightarrow>
   initializeData_in_browser b = (Inr (Snapshot (FreshArray images)), b)"
  by (simp add: browser_defs)

lemma initializeData_in_browser_unusable:
  "\<not> getItem_throws b \<Longrightarrow> item_unusable b \<Longrightarrow>
   initializeData_in_browser b =
     (if setItem_throws b then (Inl StorageError, b)
      else (Inr (Snapshot DemoArray), b\<lparr>item := Some (Text (Encoded (b_demo_array b)))\<rparr>))"
  by (auto simp: browser_defs item_unusable_def)

lemma initializeData_in_browser_not_images:
  "\<not> getItem_throws b \<Longrightarrow> item b = Some NotImages \<Longrightarrow>
   initializeData_in_browser b = (Inr Unchecked, b)"
  by (simp add: browser_defs)

lemma initializeData_in_browser_refused:
  "getItem_throws b \<Longrightarrow> initializeData_in_browser b = (Inl StorageError, b)"
  by (simp add: browser_defs)

lemma initializeData_in_browser_snapshot_iff:
  "(\<exists>images. returned_snapshot (initializeData_in_browser b) = Some images) \<longleftrightarrow>
     \<not> getItem_throws b \<and> (item_usable b \<or> item_unusable b \<and> \<not> setItem_throws b)"
proof (cases "getItem_throws b")
  case True
  then show ?thesis
    by (simp add: initializeData_in_browser_refused returned_snapshot_def)
next
  case False
  from item_cases [of b] show ?thesis
  proof (elim disjE)
    assume "item_usable b"
    with False show ?thesis
      by (auto simp: item_usable_def initializeData_in_browser_usable returned_snapshot_def)
  next
    assume u: "item_unusable b"
    then have "\<not> item_usable b"
      by (auto simp: item_usable_def item_unusable_def)
    with False u show ?thesis
      by (simp add: initializeData_in_browser_unusable returned_snapshot_def)
  next
    assume n: "item b = Some NotImages"
    then have "\<not> item_usable b" "\<not> item_unusable b"
      by (auto simp: item_usable_def item_unusable_def)
    with False n show ?thesis
      by (simp add: initializeData_in_browser_not_images returned_snapshot_def)
  qed
qed

lemma initializeData_in_browser_agrees:
  "initializeData_in_browser (in_browser s) =
     (map_sum id Snapshot (fst (initializeData s)), in_browser (snd (initializeData s)))"
  using cache_cases [of s]
  by (auto simp: initializeData_cached initializeData_seeds cache_empty_or_corrupt_def
      browser_defs in_browser_def)

lemma fetchImages_in_browser_agrees:
  "fetchImages_in_browser net (in_browser s) =
     (map_sum id Snapshot (fst (fetchImages net s)), in_browser (snd (fetchImages net s)))"
proof (cases "useMockData s \<or> (\<exists>e. fetch_remote net s = Inl e)")
  case True
  then have "fetchImages net s = initializeData s"
    by (auto simp: fetchImages_def)
  moreover from True have "fetchImages_in_browser net (in_browser s) =
      initializeData_in_browser (in_browser s)"
    by (auto simp: fetchImages_in_browser_def fetch_remote_def in_browser_def)
  ultimately show ?thesis
    by (simp add: initializeData_in_browser_agrees)
next
  case False
  then obtain images where "\<not> useMockData s" "fetch_remote net s = Inr images"
    by (cases "fetch_remote net s") auto
  then show ?thesis
    by (simp add: fetchImages_def fetchImages_in_browser_def fetch_remote_def in_browser_def)
qed

lemma mutations_seed_demo_array:
  assumes c: "cache_empty_or_corrupt s"
  shows "localStorage (snd (updateImageLabel i newLabel s)) =
       Some (JSON_stringify
         (case findIndex (\<lambda>img. img_id img = i) (demo_array s) of
            None \<Rightarrow> demo_array s
          | Some k \<Rightarrow> (demo_array s)[k := (demo_array s ! k)\<lparr>label := newLabel\<rparr>]))"
    and "localStorage (snd (addImage now u l s)) =
       Some (JSON_stringify (demo_array s @
         [\<lparr>img_id = number_toString now, url = u, label = l, comments = None\<rparr>]))"
    and "localStorage (snd (deleteImage i s)) =
       Some (JSON_stringify (filter (\<lambda>img. img_id img \<noteq> i) (demo_array s)))"
  by (auto simp: initializeData_seeds [OF c] updateImageLabel_def addImage_def deleteImage_def
      contents_of_def write_through_def JSON_stringify_def Let_def split: option.splits)

section \<open>The claims\<close>

text \<open>
  C1, as the specification states it: whatever the cache and the network do,
  \<^verbatim>\<open>fetchImages\<close> returns a snapshot and no failure reaches the caller. With the text
  \<^verbatim>\<open>null\<close> under the key, \<^verbatim>\<open>fetchImages\<close> in Demo mode returns the parsed value, which is
  no snapshot. With an empty slot and a \<^verbatim>\<open>setItem\<close> that throws, it fails with the storage
  error, in Remote mode after a failed fetch and in Demo mode alike.
\<close>

theorem fetchImages_counterexample:
  "fst (fetchImages_in_browser (\<lambda>u. None)
      \<lparr>b_useMockData = True, b_sheetUrl = None, b_demo_array = DEMO_IMAGES,
        item = Some NotImages, getItem_throws = False, setItem_throws = False\<rparr>) =
     Inr Unchecked \<and>
   returned_snapshot (fetchImages_in_browser (\<lambda>u. None)
      \<lparr>b_useMockData = True, b_sheetUrl = None, b_demo_array = DEMO_IMAGES,
        item = Some NotImages, getItem_throws = False, setItem_throws = False\<rparr>) = None \<and>
   adapter_failure (\<lambda>u. None) (Some ''https://example.org/sheet.csv'') \<and>
   fst (fetchImages_in_browser (\<lambda>u. None)
      \<lparr>b_useMockData = False, b_sheetUrl = Some ''https://example.org/sheet.csv'',
        b_demo_array = DEMO_IMAGES, item = None, getItem_throws = False,
        setItem_throws = True\<rparr>) =
     Inl StorageError \<and>
   fst (fetchImages_in_browser (\<lambda>u. None)
      \<lparr>b_useMockData = True, b_sheetUrl = None, b_demo_array = DEMO_IMAGES,
        item = None, getItem_throws = False, setItem_throws = True\<rparr>) =
     Inl StorageError"
  by (simp add: fetchImages_in_browser_def browser_defs fetch_csv_def adapter_failure_def)

text \<open>
  C1, amended. In Demo mode \<^verbatim>\<open>fetchImages\<close> is \<^verbatim>\<open>initializeData\<close>; in Remote mode every adapter
  failure (no endpoint, a rejected fetch, a status that is not a success, an unreadable
  body) is caught and answered by \<^verbatim>\<open>initializeData\<close>. The result is a snapshot, and no
  failure reaches the caller, exactly when the remote fetch succeeds or \<^verbatim>\<open>initializeData\<close>
  gives one: \<^verbatim>\<open>getItem\<close> does not throw, and either the text under the key encodes an image
  array, or there is no usable text and \<^verbatim>\<open>setItem\<close> does not throw. \<^verbatim>\<open>initializeData\<close> then
  gives the cached snapshot in the first case and, in the second, the built-in demo set
  when the demo array still holds it.
\<close>

theorem fetchImages_contract:
  "(b_useMockData b \<longrightarrow> fetchImages_in_browser net b = initializeData_in_browser b) \<and>
   (\<not> b_useMockData b \<and> adapter_failure net (b_sheetUrl b) \<longrightarrow>
      fetchImages_in_browser net b = initializeData_in_browser b) \<and>
   ((\<exists>images. returned_snapshot (fetchImages_in_browser net b) = Some images) \<longleftrightarrow>
      \<not> b_useMockData b \<and> \<not> adapter_failure net (b_sheetUrl b) \<or>
      \<not> getItem_throws b \<and> (item_usable b \<or> item_unusable b \<and> \<not> setItem_throws b)) \<and>
   (\<not> getItem_throws b \<and> item b = Some (Text (Encoded images)) \<longrightarrow>
      returned_snapshot (initializeData_in_browser b) = Some images) \<and>
   (\<not> getItem_throws b \<and> \<not> setItem_throws b \<and> item_unusable b \<and>
    b_demo_array b = DEMO_IMAGES \<longrightarrow>
      returned_snapshot (initializeData_in_browser b) = Some DEMO_IMAGES)"
proof (intro conjI impI)
  show mock: "fetchImages_in_browser net b = initializeData_in_browser b" if "b_useMockData b"
    using that by (simp add: fetchImages_in_browser_def)
  show fallback: "fetchImages_in_browser net b = initializeData_in_browser b"
    if "\<not> b_useMockData b \<and> adapter_failure net (b_sheetUrl b)"
    using that fetch_csv_fails_iff [of net "b_sheetUrl b"]
    by (auto simp: fetchImages_in_browser_def)
  show "(\<exists>images. returned_snapshot (fetchImages_in_browser net b) = Some images) \<longleftrightarrow>
      \<not> b_useMockData b \<and> \<not> adapter_failure net (b_sheetUrl b) \<or>
      \<not> getItem_throws b \<and> (item_usable b \<or> item_unusable b \<and> \<not> setItem_throws b)"
  proof (cases "\<not> b_useMockData b \<and> \<not> adapter_failure net (b_sheetUrl b)")
    case True
    with fetch_csv_fails_iff [of net "b_sheetUrl b"]
    obtain images where "fetch_csv net (b_sheetUrl b) = Inr images"
      by (cases "fetch_csv net (b_sheetUrl b)") auto
    with True show ?thesis
      by (simp add: fetchImages_in_browser_def returned_snapshot_def)
  next
    case False
    with mock fallback have "fetchImages_in_browser net b = initializeData_in_browser b"
      by blast
    with False show ?thesis
      using initializeData_in_browser_snapshot_iff [of b] by auto
  qed
  show "returned_snapshot (initializeData_in_browser b) = Some images"
    if "\<not> getItem_throws b \<and> item b = Some (Text (Encoded images))"
    using that by (simp add: initializeData_in_browser_usable returned_snapshot_def)
  show "returned_snapshot (initializeData_in_browser b) = Some DEMO_IMAGES"
    if "\<not> getItem_throws b \<and> \<not> setItem_throws b \<and> item_unusable b \<and>
      b_demo_array b = DEMO_IMAGES"
    using that by (simp add: initializeData_in_browser_unusable returned_snapshot_def)
qed

theorem fetchImages_contract_witness:
  "b_useMockData (in_browser (new_service None)) \<and>
   \<not> getItem_throws (in_browser (new_service None)) \<and>
   \<not> setItem_throws (in_browser (new_service None)) \<and>
   item_unusable (in_browser (new_service None)) \<and>
   b_demo_array (in_browser (new_service None)) = DEMO_IMAGES \<and>
   fetchImages_in_browser (\<lambda>u. None) (in_browser (new_service None)) =
     initializeData_in_browser (in_browser (new_service None)) \<and>
   returned_snapshot (initializeData_in_browser (in_browser (new_service None))) =
     Some DEMO_IMAGES \<and>
   \<not> b_useMockData (in_browser (setSheetUrl ''https://example.org/sheet.csv''
       (new_service (Some (Encoded DEMO_IMAGES))))) \<and>
   adapter_failure (\<lambda>u. Some \<lparr>ok = False, status = 404, body = Some []\<rparr>)
     (b_sheetUrl (in_browser (setSheetUrl ''https://example.org/sheet.csv''
       (new_service (Some (Encoded DEMO_IMAGES)))))) \<and>
   item (in_browser (setSheetUrl ''https://example.org/sheet.csv''
       (new_service (Some (Encoded DEMO_IMAGES))))) = Some (Text (Encoded DEMO_IMAGES)) \<and>
   fetchImages_in_browser (\<lambda>u. Some \<lparr>ok = False, status = 404, body = Some []\<rparr>)
     (in_browser (setSheetUrl ''https://example.org/sheet.csv''
       (new_service (Some (Encoded DEMO_IMAGES))))) =
     initializeData_in_browser (in_browser (setSheetUrl ''https://example.org/sheet.csv''
       (new_service (Some (Encoded DEMO_IMAGES))))) \<and>
   returned_snapshot (initializeData_in_browser
     (in_browser (setSheetUrl ''https://example.org/sheet.csv''
       (new_service (Some (Encoded DEMO_IMAGES)))))) = Some DEMO_IMAGES"
proof -
  let ?b1 = "in_browser (new_service None)"
  let ?b2 = "in_browser (setSheetUrl ''https://example.org/sheet.csv''
       (new_service (Some (Encoded DEMO_IMAGES))))"
  let ?n2 = "\<lambda>u::string. Some \<lparr>ok = False, status = 404, body = Some []\<rparr>"
  have h1: "b_useMockData ?b1" "\<not> getItem_throws ?b1" "\<not> setItem_throws ?b1"
    "item_unusable ?b1" "b_demo_array ?b1 = DEMO_IMAGES"
    by (simp_all add: in_browser_def new_service_def item_unusable_def)
  have h2: "\<not> b_useMockData ?b2" "adapter_failure ?n2 (b_sheetUrl ?b2)"
    "item ?b2 = Some (Text (Encoded DEMO_IMAGES))" "\<not> getItem_throws ?b2"
    by (simp_all add: in_browser_def new_service_def setSheetUrl_def adapter_failure_def)
  note i1 = fetchImages_contract [where b = ?b1 and net = "\<lambda>u. None" and images = "[]"]
  note i2 = fetchImages_contract [where b = ?b2 and net = ?n2 and images = DEMO_IMAGES]
  from i1 h1 have a1: "fetchImages_in_browser (\<lambda>u. None) ?b1 = initializeData_in_browser ?b1"
    by blast
  from i1 h1 have a2: "returned_snapshot (initializeData_in_browser ?b1) = Some DEMO_IMAGES"
    by blast
  from i2 h2 have a3: "fetchImages_in_browser ?n2 ?b2 = initializeData_in_browser ?b2"
    by blast
  from i2 h2 have a4: "returned_snapshot (initializeData_in_browser ?b2) = Some DEMO_IMAGES"
    by blast
  show ?thesis
    by (intro conjI h1 h2(1-3) a1 a2 a3 a4)
qed

text \<open>
  C2, as the specification states it: for an id that does not occur in the cache-backed
  snapshot, \<^verbatim>\<open>updateLabel\<close> fails and the stored value is what it was before the call.
  In a fresh service with an empty cache slot the call for the id \<open>42\<close> fails with
  \<^verbatim>\<open>Image not found\<close>, and the slot, empty before, holds the demo set afterwards.
\<close>

theorem updateImageLabel_not_found_counterexample:
  "snapshot_of (initializeData (new_service None)) = Some DEMO_IMAGES \<and>
   ''42'' \<notin> img_id ` set DEMO_IMAGES \<and>
   fst (updateImageLabel ''42'' ''Lake'' (new_service None)) = Inl ImageNotFound \<and>
   localStorage (new_service None) = None \<and>
   localStorage (snd (updateImageLabel ''42'' ''Lake'' (new_service None))) =
     Some (Encoded DEMO_IMAGES)"
  by (simp add: updateImageLabel_def service_defs new_service_def DEMO_IMAGES_def Let_def)

text \<open>
  C2, amended. For an id that does not occur in the cache-backed snapshot (the snapshot
  \<^verbatim>\<open>initializeData\<close> loads), \<^verbatim>\<open>updateImageLabel\<close> fails with \<^verbatim>\<open>Image not found\<close>, a failure
  the caller receives; afterwards the slot holds exactly that snapshot and the demo array
  is untouched. When the slot already held the snapshot, nothing at all has changed.
\<close>

theorem updateImageLabel_not_found:
  "snapshot_of (initializeData s) = Some images \<and> i \<notin> img_id ` set images \<longrightarrow>
     fst (updateImageLabel i newLabel s) = Inl ImageNotFound \<and>
     localStorage (snd (updateImageLabel i newLabel s)) = Some (JSON_stringify images) \<and>
     demo_array (snd (updateImageLabel i newLabel s)) = demo_array s \<and>
     (localStorage s = Some (JSON_stringify images) \<longrightarrow> snd (updateImageLabel i newLabel s) = s)"
proof (intro impI, elim conjE)
  assume snap: "snapshot_of (initializeData s) = Some images"
    and absent: "i \<notin> img_id ` set images"
  note upd = updateImageLabel_absent [OF snap absent, of newLabel]
  from cache_cases [of s] snap
  have after: "localStorage (snd (initializeData s)) = Some (JSON_stringify images)"
    "demo_array (snd (initializeData s)) = demo_array s"
    by (auto simp: initializeData_cached initializeData_seeds snapshot_of_def contents_of_def
        JSON_stringify_def)
  have same: "snd (initializeData s) = s" if "localStorage s = Some (JSON_stringify images)"
    using that by (simp add: JSON_stringify_def initializeData_cached)
  from upd after same
  show "fst (updateImageLabel i newLabel s) = Inl ImageNotFound \<and>
     localStorage (snd (updateImageLabel i newLabel s)) = Some (JSON_stringify images) \<and>
     demo_array (snd (updateImageLabel i newLabel s)) = demo_array s \<and>
     (localStorage s = Some (JSON_stringify images) \<longrightarrow> snd (updateImageLabel i newLabel s) = s)"
    by simp
qed

theorem updateImageLabel_not_found_witness:
  "snapshot_of (initializeData (new_service (Some (Encoded DEMO_IMAGES)))) = Some DEMO_IMAGES \<and>
   ''42'' \<notin> img_id ` set DEMO_IMAGES \<and>
   fst (updateImageLabel ''42'' ''Lake'' (new_service (Some (Encoded DEMO_IMAGES)))) =
     Inl ImageNotFound \<and>
   snd (updateImageLabel ''42'' ''Lake'' (new_service (Some (Encoded DEMO_IMAGES)))) =
     new_service (Some (Encoded DEMO_IMAGES))"
proof -
  have h: "snapshot_of (initializeData (new_service (Some (Encoded DEMO_IMAGES)))) = Some DEMO_IMAGES \<and>
      ''42'' \<notin> img_id ` set DEMO_IMAGES"
    by (simp add: service_defs new_service_def DEMO_IMAGES_def)
  have c: "localStorage (new_service (Some (Encoded DEMO_IMAGES))) = Some (JSON_stringify DEMO_IMAGES)"
    by (simp add: new_service_def JSON_stringify_def)
  from updateImageLabel_not_found [of "new_service (Some (Encoded DEMO_IMAGES))" DEMO_IMAGES
      "''42''" "''Lake''"] h c
  show ?thesis by simp
qed

text \<open>
  C3, as the specification states it: each line after the header is split on commas, and
  each field loses at most one pair of enclosing double quotes and is trimmed. A url
  field with a double quote at its start only is not enclosed in a pair, would keep the
  quote and be rejected: \<^verbatim>\<open>parseCSV\<close> strips the quote and accepts the row. An id field in
  quotes after a space at the start of the line is not enclosed in a pair either:
  \<^verbatim>\<open>parseCSV\<close> trims the line first and strips the pair.
\<close>

theorem parseCSV_pair_counterexample:
  "parseCSV (''ID,URL,Label'' @ [CHR 0x0A] @ ''1,'' @ [CHR 0x22] @ ''https://x/a.jpg,Foo'') =
     [\<lparr>img_id = ''1'', url = ''https://x/a.jpg'', label = ''Foo'', comments = None\<rparr>] \<and>
   spec_parseCSV (''ID,URL,Label'' @ [CHR 0x0A] @ ''1,'' @ [CHR 0x22] @ ''https://x/a.jpg,Foo'') = [] \<and>
   parseCSV (''ID,URL,Label'' @ [CHR 0x0A] @ '' '' @ [CHR 0x22] @ ''7'' @ [CHR 0x22] @
             '',https://x/c.jpg,Sea'') =
     [\<lparr>img_id = ''7'', url = ''https://x/c.jpg'', label = ''Sea'', comments = None\<rparr>] \<and>
   spec_parseCSV (''ID,URL,Label'' @ [CHR 0x0A] @ '' '' @ [CHR 0x22] @ ''7'' @ [CHR 0x22] @
             '',https://x/c.jpg,Sea'') =
     [\<lparr>img_id = [CHR 0x22, CHR ''7'', CHR 0x22], url = ''https://x/c.jpg'', label = ''Sea'',
       comments = None\<rparr>]"
  by (simp add: csv_eval contract_eval)


text \<open>
  C3, amended. \<^verbatim>\<open>parseCSV\<close> discards the first line, skips blank lines, trims each
  remaining line and splits it on commas into at most three leading fields (id, url,
  label); each field loses a double quote at its start and a double quote at its end,
  each whether or not the other is there, and is then trimmed; a record is accepted only
  if url is non-empty and begins with \<open>http\<close>; an empty id is replaced by the 1-based
  index of the line after the header (blank and rejected lines counted), an empty label
  by \<open>Untitled\<close>. On a field that is empty, or is not a lone quote and has a quote at
  both ends or at neither, this is the stripping of an enclosing pair. The text of the
  specification's example gives the two records listed there; a text with white space,
  quotes, a carriage return, a blank line and a missing label gives the records the
  contract describes.
\<close>

theorem parseCSV_contract:
  "parseCSV csvText = amended_parseCSV csvText \<and>
   (f = [] \<or> f \<noteq> [CHR 0x22] \<and> (hd f = CHR 0x22 \<longleftrightarrow> last f = CHR 0x22) \<longrightarrow>
      either_unquote f = spec_unquote f) \<and>
   parseCSV (''ID,URL,Label'' @ [CHR 0x0A] @ ''1,https://x/a.jpg,Foo'' @ [CHR 0x0A] @
             '',https://x/b.jpg,'' @ [CHR 0x0A] @ ''2,not-a-url,Bar'' @ [CHR 0x0A]) =
     [\<lparr>img_id = ''1'', url = ''https://x/a.jpg'', label = ''Foo'', comments = None\<rparr>,
      \<lparr>img_id = ''2'', url = ''https://x/b.jpg'', label = ''Untitled'', comments = None\<rparr>] \<and>
   parseCSV (''ID,URL,Label'' @ [CHR 0x0A] @
             '' '' @ [CHR 0x22] @ ''7'' @ [CHR 0x22] @ '',https://x/c.jpg , '' @
               [CHR 0x22] @ ''Sea'' @ [CHR 0x22, CHR 0x0D, CHR 0x0A] @
             [CHR 0x0A] @ '',https://x/d.jpg'' @ [CHR 0x0A]) =
     [\<lparr>img_id = ''7'', url = ''https://x/c.jpg'', label = [CHR 0x22] @ ''Sea'', comments = None\<rparr>,
      \<lparr>img_id = ''3'', url = ''https://x/d.jpg'', label = ''Untitled'', comments = None\<rparr>]"
proof (intro conjI impI)
  show "parseCSV csvText = amended_parseCSV csvText"
    by (rule parseCSV_amended)
  show "either_unquote f = spec_unquote f"
    if "f = [] \<or> f \<noteq> [CHR 0x22] \<and> (hd f = CHR 0x22 \<longleftrightarrow> last f = CHR 0x22)"
    using that by (rule unquote_agree)
  show "parseCSV (''ID,URL,Label'' @ [CHR 0x0A] @ ''1,https://x/a.jpg,Foo'' @ [CHR 0x0A] @
             '',https://x/b.jpg,'' @ [CHR 0x0A] @ ''2,not-a-url,Bar'' @ [CHR 0x0A]) =
     [\<lparr>img_id = ''1'', url = ''https://x/a.jpg'', label = ''Foo'', comments = None\<rparr>,
      \<lparr>img_id = ''2'', url = ''https://x/b.jpg'', label = ''Untitled'', comments = None\<rparr>]"
    by (simp add: csv_eval)
  show "parseCSV (''ID,URL,Label'' @ [CHR 0x0A] @
             '' '' @ [CHR 0x22] @ ''7'' @ [CHR 0x22] @ '',https://x/c.jpg , '' @
               [CHR 0x22] @ ''Sea'' @ [CHR 0x22, CHR 0x0D, CHR 0x0A] @
             [CHR 0x0A] @ '',https://x/d.jpg'' @ [CHR 0x0A]) =
     [\<lparr>img_id = ''7'', url = ''https://x/c.jpg'', label = [CHR 0x22] @ ''Sea'', comments = None\<rparr>,
      \<lparr>img_id = ''3'', url = ''https://x/d.jpg'', label = ''Untitled'', comments = None\<rparr>]"
    by (simp add: csv_eval)
qed

theorem parseCSV_contract_witness:
  "[CHR 0x22, CHR ''a'', CHR 0x22] \<noteq> [CHR 0x22] \<and>
   hd [CHR 0x22, CHR ''a'', CHR 0x22] = CHR 0x22 \<and>
   last [CHR 0x22, CHR ''a'', CHR 0x22] = CHR 0x22 \<and>
   either_unquote [CHR 0x22, CHR ''a'', CHR 0x22] = spec_unquote [CHR 0x22, CHR ''a'', CHR 0x22] \<and>
   spec_unquote [CHR 0x22, CHR ''a'', CHR 0x22] = ''a'' \<and>
   amended_parseCSV (''ID,URL,Label'' @ [CHR 0x0A] @ ''1,https://x/a.jpg,Foo'') =
     [\<lparr>img_id = ''1'', url = ''https://x/a.jpg'', label = ''Foo'', comments = None\<rparr>]"
proof -
  have h: "[CHR 0x22, CHR ''a'', CHR 0x22] \<noteq> [CHR 0x22]"
    "hd [CHR 0x22, CHR ''a'', CHR 0x22] = CHR 0x22"
    "last [CHR 0x22, CHR ''a'', CHR 0x22] = CHR 0x22"
    by simp_all
  have u: "spec_unquote [CHR 0x22, CHR ''a'', CHR 0x22] = ''a''"
    by (simp add: spec_unquote_def)
  have p: "parseCSV (''ID,URL,Label'' @ [CHR 0x0A] @ ''1,https://x/a.jpg,Foo'') =
     [\<lparr>img_id = ''1'', url = ''https://x/a.jpg'', label = ''Foo'', comments = None\<rparr>]"
    by (simp add: csv_eval)
  note inst = parseCSV_contract [where f = "[CHR 0x22, CHR ''a'', CHR 0x22]"
      and csvText = "''ID,URL,Label'' @ [CHR 0x0A] @ ''1,https://x/a.jpg,Foo''"]
  from inst h have e: "either_unquote [CHR 0x22, CHR ''a'', CHR 0x22] =
      spec_unquote [CHR 0x22, CHR ''a'', CHR 0x22]"
    by blast
  from inst p have a: "amended_parseCSV (''ID,URL,Label'' @ [CHR 0x0A] @ ''1,https://x/a.jpg,Foo'') =
     [\<lparr>img_id = ''1'', url = ''https://x/a.jpg'', label = ''Foo'', comments = None\<rparr>]"
    by simp
  show ?thesis
    by (intro conjI h e u a)
qed

text \<open>
  C4, as the specification states it: normalization succeeds on the strings that contain
  \<^verbatim>\<open>/spreadsheets/d/<SHEET_ID>/\<close> and fails on every other string. The address of a
  sheet without anything after the identifier does not contain the pattern, there being
  no closing slash, and is normalized all the same.
\<close>

theorem convertToCSVUrl_counterexample:
  "\<not> spec_edit_pattern ''https://docs.google.com/spreadsheets/d/1BxiMVs0XRA5nFMdKvBdBZjgmUUqptlbs74OgvE2upms'' \<and>
   convertToCSVUrl ''https://docs.google.com/spreadsheets/d/1BxiMVs0XRA5nFMdKvBdBZjgmUUqptlbs74OgvE2upms'' =
     Inr ''https://docs.google.com/spreadsheets/d/e/1BxiMVs0XRA5nFMdKvBdBZjgmUUqptlbs74OgvE2upms/pub?output=csv''"
  by (simp add: url_eval)

text \<open>
  C4, amended. The pattern needs no closing slash: normalization succeeds exactly on the
  strings in which \<^verbatim>\<open>/spreadsheets/d/\<close> is somewhere followed by a letter, digit, hyphen
  or underscore, and fails, with \<^verbatim>\<open>Invalid Google Sheets URL\<close> and nothing else, exactly on
  the others. The identifier put into the result is the longest run of such characters
  after the leftmost occurrence: when \<open>u\<close> is \<open>pre\<close>, the literal, the run \<open>g\<close> and a
  rest that does not continue the run, and no occurrence starts inside \<open>pre\<close>, the result
  is the published-CSV address of \<open>g\<close>. Being a function of the string, the result is
  the same on every call.
\<close>

theorem convertToCSVUrl_contract:
  "(u = pre @ sheet_prefix @ g @ rest \<and> g \<noteq> [] \<and> list_all is_sheet_id_char g \<and>
      (rest = [] \<or> \<not> is_sheet_id_char (hd rest)) \<and> \<not> has_sheet_pattern (pre @ sheet_prefix) \<longrightarrow>
      convertToCSVUrl u =
        Inr (''https://docs.google.com/spreadsheets/d/e/'' @ g @ ''/pub?output=csv'')) \<and>
   (has_sheet_pattern u \<longleftrightarrow>
      (\<exists>pre c rest. u = pre @ sheet_prefix @ c # rest \<and> is_sheet_id_char c)) \<and>
   (has_sheet_pattern u \<longleftrightarrow>
      (\<exists>g. g \<noteq> [] \<and> list_all is_sheet_id_char g \<and> convertToCSVUrl u =
         Inr (''https://docs.google.com/spreadsheets/d/e/'' @ g @ ''/pub?output=csv''))) \<and>
   (\<not> has_sheet_pattern u \<longleftrightarrow> convertToCSVUrl u = Inl InvalidSheetsUrl) \<and>
   (\<forall>e. convertToCSVUrl u = Inl e \<longrightarrow> e = InvalidSheetsUrl)"
proof (intro conjI impI allI)
  show "convertToCSVUrl u = Inr (''https://docs.google.com/spreadsheets/d/e/'' @ g @ ''/pub?output=csv'')"
    if "u = pre @ sheet_prefix @ g @ rest \<and> g \<noteq> [] \<and> list_all is_sheet_id_char g \<and>
      (rest = [] \<or> \<not> is_sheet_id_char (hd rest)) \<and> \<not> has_sheet_pattern (pre @ sheet_prefix)"
    using that match_leftmost [of g rest pre] by (simp add: convertToCSVUrl_def)
  show "has_sheet_pattern u \<longleftrightarrow>
      (\<exists>pre c rest. u = pre @ sheet_prefix @ c # rest \<and> is_sheet_id_char c)"
    by (rule has_sheet_pattern_iff)
  show "has_sheet_pattern u \<longleftrightarrow>
      (\<exists>g. g \<noteq> [] \<and> list_all is_sheet_id_char g \<and> convertToCSVUrl u =
         Inr (''https://docs.google.com/spreadsheets/d/e/'' @ g @ ''/pub?output=csv''))"
    using match_None_iff [of u] match_Some_run [of u]
    by (auto simp: convertToCSVUrl_def split: option.splits)
  show "\<not> has_sheet_pattern u \<longleftrightarrow> convertToCSVUrl u = Inl InvalidSheetsUrl"
    using match_None_iff [of u] by (auto simp: convertToCSVUrl_def split: option.splits)
  show "e = InvalidSheetsUrl" if "convertToCSVUrl u = Inl e" for e
    using that by (auto simp: convertToCSVUrl_def split: option.splits)
qed

theorem convertToCSVUrl_contract_witness:
  "''https://docs.google.com/spreadsheets/d/1BxiMVs0XRA5nFMdKvBdBZjgmUUqptlbs74OgvE2upms/edit#gid=0'' =
     ''https://docs.google.com'' @ sheet_prefix @ ''1BxiMVs0XRA5nFMdKvBdBZjgmUUqptlbs74OgvE2upms'' @ ''/edit#gid=0'' \<and>
   list_all is_sheet_id_char ''1BxiMVs0XRA5nFMdKvBdBZjgmUUqptlbs74OgvE2upms'' \<and>
   \<not> is_sheet_id_char (hd ''/edit#gid=0'') \<and>
   \<not> has_sheet_pattern (''https://docs.google.com'' @ sheet_prefix) \<and>
   convertToCSVUrl ''https://docs.google.com/spreadsheets/d/1BxiMVs0XRA5nFMdKvBdBZjgmUUqptlbs74OgvE2upms/edit#gid=0'' =
     Inr ''https://docs.google.com/spreadsheets/d/e/1BxiMVs0XRA5nFMdKvBdBZjgmUUqptlbs74OgvE2upms/pub?output=csv'' \<and>
   \<not> has_sheet_pattern ''https://example.org/gallery.csv'' \<and>
   convertToCSVUrl ''https://example.org/gallery.csv'' = Inl InvalidSheetsUrl"
proof -
  have h: "''https://docs.google.com/spreadsheets/d/1BxiMVs0XRA5nFMdKvBdBZjgmUUqptlbs74OgvE2upms/edit#gid=0'' =
     ''https://docs.google.com'' @ sheet_prefix @ ''1BxiMVs0XRA5nFMdKvBdBZjgmUUqptlbs74OgvE2upms'' @ ''/edit#gid=0''"
    "''1BxiMVs0XRA5nFMdKvBdBZjgmUUqptlbs74OgvE2upms'' \<noteq> []"
    "list_all is_sheet_id_char ''1BxiMVs0XRA5nFMdKvBdBZjgmUUqptlbs74OgvE2upms''"
    "\<not> is_sheet_id_char (hd ''/edit#gid=0'')"
    "\<not> has_sheet_pattern (''https://docs.google.com'' @ sheet_prefix)"
    "\<not> has_sheet_pattern ''https://example.org/gallery.csv''"
    by (simp_all add: url_eval)
  note first = convertToCSVUrl_contract [of
      "''https://docs.google.com/spreadsheets/d/1BxiMVs0XRA5nFMdKvBdBZjgmUUqptlbs74OgvE2upms/edit#gid=0''"
      "''https://docs.google.com''" "''1BxiMVs0XRA5nFMdKvBdBZjgmUUqptlbs74OgvE2upms''" "''/edit#gid=0''",
      THEN conjunct1, rule_format]
  have "convertToCSVUrl ''https://docs.google.com/spreadsheets/d/1BxiMVs0XRA5nFMdKvBdBZjgmUUqptlbs74OgvE2upms/edit#gid=0'' =
     Inr (''https://docs.google.com/spreadsheets/d/e/'' @ ''1BxiMVs0XRA5nFMdKvBdBZjgmUUqptlbs74OgvE2upms'' @ ''/pub?output=csv'')"
    by (rule first) (intro conjI disjI2 h)
  then have r1: "convertToCSVUrl ''https://docs.google.com/spreadsheets/d/1BxiMVs0XRA5nFMdKvBdBZjgmUUqptlbs74OgvE2upms/edit#gid=0'' =
     Inr ''https://docs.google.com/spreadsheets/d/e/1BxiMVs0XRA5nFMdKvBdBZjgmUUqptlbs74OgvE2upms/pub?output=csv''"
    by simp
  from convertToCSVUrl_contract [of "''https://example.org/gallery.csv''"] h(6)
  have r2: "convertToCSVUrl ''https://example.org/gallery.csv'' = Inl InvalidSheetsUrl"
    by blast
  show ?thesis
    by (intro conjI h(1) h(3) h(4) h(5) h(6) r1 r2)
qed

text \<open>
  C5. After \<^verbatim>\<open>resetToDemo\<close>, \<^verbatim>\<open>fetchImages\<close> is to return the six built-in records. It
  returns the present contents of the array \<^verbatim>\<open>DEMO_IMAGES\<close> (lemma
  \<open>resetToDemo_fetch_intact\<close>), and these are not fixed: with an empty cache
  \<^verbatim>\<open>updateImageLabel('1', 'Edited')\<close> gets that very array from \<^verbatim>\<open>initializeData\<close> and
  writes the label into it, so that the reset that follows brings the edit back.
\<close>

theorem resetToDemo_resurrects_edit:
  "snapshot_of (fetchImages net
      (resetToDemo (snd (updateImageLabel ''1'' ''Edited'' (new_service None))))) =
     Some (DEMO_IMAGES[0 := (DEMO_IMAGES ! 0)\<lparr>label := ''Edited''\<rparr>]) \<and>
   DEMO_IMAGES[0 := (DEMO_IMAGES ! 0)\<lparr>label := ''Edited''\<rparr>] \<noteq> DEMO_IMAGES \<and>
   fst (updateImageLabel ''1'' ''Edited'' (new_service None)) = Inr ()"
proof (intro conjI)
  have d: "demo_array (snd (updateImageLabel ''1'' ''Edited'' (new_service None))) =
      DEMO_IMAGES[0 := (DEMO_IMAGES ! 0)\<lparr>label := ''Edited''\<rparr>]"
    by (simp add: updateImageLabel_def service_defs new_service_def DEMO_IMAGES_def Let_def)
  show "snapshot_of (fetchImages net
      (resetToDemo (snd (updateImageLabel ''1'' ''Edited'' (new_service None))))) =
     Some (DEMO_IMAGES[0 := (DEMO_IMAGES ! 0)\<lparr>label := ''Edited''\<rparr>])"
    by (simp only: resetToDemo_fetch_intact d)
  show "DEMO_IMAGES[0 := (DEMO_IMAGES ! 0)\<lparr>label := ''Edited''\<rparr>] \<noteq> DEMO_IMAGES"
    by (simp add: DEMO_IMAGES_def)
  show "fst (updateImageLabel ''1'' ''Edited'' (new_service None)) = Inr ()"
    by (simp add: updateImageLabel_def service_defs new_service_def DEMO_IMAGES_def Let_def)
qed

text \<open>
  C6. \<^verbatim>\<open>initializeData\<close> is idempotent: from every state, a second call straight after the
  first returns the same snapshot and leaves the state, the cache with it, as the first
  call left it. The cache then holds the snapshot returned; and a state whose cache
  already holds a snapshot is not changed at all, so nothing is seeded again.
\<close>

theorem initializeData_idempotent:
  "snapshot_of (initializeData (snd (initializeData s))) = snapshot_of (initializeData s) \<and>
   snd (initializeData (snd (initializeData s))) = snd (initializeData s) \<and>
   (\<exists>images. snapshot_of (initializeData s) = Some images \<and>
      localStorage (snd (initializeData s)) = Some (JSON_stringify images)) \<and>
   ((\<exists>images. localStorage s = Some (JSON_stringify images)) \<longrightarrow> snd (initializeData s) = s)"
  using cache_cases [of s]
  by (auto simp: initializeData_cached initializeData_seeds snapshot_of_def contents_of_def
      JSON_stringify_def)

theorem initializeData_idempotent_witness:
  "localStorage (new_service (Some (Encoded DEMO_IMAGES))) = Some (JSON_stringify DEMO_IMAGES) \<and>
   snd (initializeData (new_service (Some (Encoded DEMO_IMAGES)))) =
     new_service (Some (Encoded DEMO_IMAGES)) \<and>
   snapshot_of (initializeData (snd (initializeData (new_service None)))) = Some DEMO_IMAGES \<and>
   snapshot_of (initializeData (new_service None)) = Some DEMO_IMAGES"
  using initializeData_idempotent [of "new_service (Some (Encoded DEMO_IMAGES))"]
    initializeData_idempotent [of "new_service None"]
  by (auto simp: new_service_def JSON_stringify_def service_defs)

text \<open>
  C7. \<^verbatim>\<open>updateImageComments\<close> (modelled from the specification) has the contract of
  \<^verbatim>\<open>updateImageLabel\<close> for the comments field: for an id of the cache-backed snapshot it
  succeeds, sets the comments of the record with that id and stores the whole snapshot;
  for any other id it fails with \<^verbatim>\<open>Image not found\<close>.
\<close>

theorem updateImageComments_contract:
  "snapshot_of (initializeData s) = Some images \<longrightarrow>
     (i \<in> img_id ` set images \<longrightarrow>
        (\<exists>k < length images. img_id (images ! k) = i \<and>
           fst (updateImageComments i newComments s) = Inr () \<and>
           localStorage (snd (updateImageComments i newComments s)) =
             Some (JSON_stringify (images[k := (images ! k)\<lparr>comments := Some newComments\<rparr>])))) \<and>
     (i \<notin> img_id ` set images \<longrightarrow>
        fst (updateImageComments i newComments s) = Inl ImageNotFound)"
proof (intro impI conjI)
  assume snap: "snapshot_of (initializeData s) = Some images"
  obtain r s1 where init: "initializeData s = (Inr r, s1)"
    using cache_cases [of s] by (auto simp: initializeData_cached initializeData_seeds)
  with snap have c: "contents_of s1 r = images"
    by (simp add: snapshot_of_def)
  show "fst (updateImageComments i newComments s) = Inl ImageNotFound"
    if "i \<notin> img_id ` set images"
  proof -
    from that have "findIndex (\<lambda>img. img_id img = i) images = None"
      by (auto simp: findIndex_None)
    then show ?thesis by (simp add: updateImageComments_def init c)
  qed
  show "\<exists>k < length images. img_id (images ! k) = i \<and>
           fst (updateImageComments i newComments s) = Inr () \<and>
           localStorage (snd (updateImageComments i newComments s)) =
             Some (JSON_stringify (images[k := (images ! k)\<lparr>comments := Some newComments\<rparr>]))"
    if "i \<in> img_id ` set images"
  proof -
    from that have "findIndex (\<lambda>img. img_id img = i) images \<noteq> None"
      by (auto simp: findIndex_None)
    then obtain k where k: "findIndex (\<lambda>img. img_id img = i) images = Some k"
      by auto
    from findIndex_Some [OF k] have "k < length images" "img_id (images ! k) = i"
      by simp_all
    moreover have "fst (updateImageComments i newComments s) = Inr ()"
      by (simp add: updateImageComments_def init c k Let_def)
    moreover have "localStorage (snd (updateImageComments i newComments s)) =
        Some (JSON_stringify (images[k := (images ! k)\<lparr>comments := Some newComments\<rparr>]))"
      by (simp add: updateImageComments_def init c k Let_def)
    ultimately show ?thesis by blast
  qed
qed

theorem updateImageComments_contract_witness:
  "snapshot_of (initializeData (new_service None)) = Some DEMO_IMAGES \<and>
   ''2'' \<in> img_id ` set DEMO_IMAGES \<and> ''42'' \<notin> img_id ` set DEMO_IMAGES \<and>
   fst (updateImageComments ''42'' ''misty'' (new_service None)) = Inl ImageNotFound \<and>
   (\<exists>k < length DEMO_IMAGES. img_id (DEMO_IMAGES ! k) = ''2'' \<and>
      fst (updateImageComments ''2'' ''misty'' (new_service None)) = Inr () \<and>
      localStorage (snd (updateImageComments ''2'' ''misty'' (new_service None))) =
        Some (JSON_stringify (DEMO_IMAGES[k := (DEMO_IMAGES ! k)\<lparr>comments := Some ''misty''\<rparr>])))"
proof -
  have h: "snapshot_of (initializeData (new_service None)) = Some DEMO_IMAGES"
    by (simp add: service_defs new_service_def)
  have m: "''2'' \<in> img_id ` set DEMO_IMAGES" "''42'' \<notin> img_id ` set DEMO_IMAGES"
    by (simp_all add: DEMO_IMAGES_def)
  from updateImageComments_contract [of "new_service None" DEMO_IMAGES "''2''" "''misty''"]
    updateImageComments_contract [of "new_service None" DEMO_IMAGES "''42''" "''misty''"] h m
  show ?thesis by simp
qed

text \<open>
  C8, as the specification states it: a fourth column fills the comments field, and
  without one the field is the empty string. A row with the fourth column \<open>misty\<close> and
  the same row without it give the same record, whose comments field is not set: neither
  \<open>misty\<close> nor the empty string.
\<close>

theorem parseCSV_fourth_column_counterexample:
  "parseCSV (''ID,URL,Label,Comments'' @ [CHR 0x0A] @ ''1,https://x/a.jpg,Foo,misty'') =
     [\<lparr>img_id = ''1'', url = ''https://x/a.jpg'', label = ''Foo'', comments = None\<rparr>] \<and>
   parseCSV (''ID,URL,Label'' @ [CHR 0x0A] @ ''1,https://x/a.jpg,Foo'') =
     [\<lparr>img_id = ''1'', url = ''https://x/a.jpg'', label = ''Foo'', comments = None\<rparr>] \<and>
   comments \<lparr>img_id = ''1'', url = ''https://x/a.jpg'', label = ''Foo'', comments = None\<rparr>
     \<noteq> Some ''misty'' \<and>
   comments \<lparr>img_id = ''1'', url = ''https://x/a.jpg'', label = ''Foo'', comments = None\<rparr>
     \<noteq> Some []"
  by (simp add: csv_eval)

text \<open>
  C8, amended. \<^verbatim>\<open>parseCSV\<close> reads the first three columns only: whatever the text, with or
  without a fourth column, no record it returns has its comments field set.
\<close>

theorem parseCSV_no_comments:
  "\<forall>r \<in> set (parseCSV csvText). comments r = None"
  unfolding parseCSV_def by (rule parseCSV_loop_comments) simp

theorem parseCSV_no_comments_witness:
  "set (parseCSV (''ID,URL,Label,Comments'' @ [CHR 0x0A] @ ''1,https://x/a.jpg,Foo,misty'')) =
     {\<lparr>img_id = ''1'', url = ''https://x/a.jpg'', label = ''Foo'', comments = None\<rparr>} \<and>
   list_all (\<lambda>r. comments r = None)
     (parseCSV (''ID,URL,Label,Comments'' @ [CHR 0x0A] @ ''1,https://x/a.jpg,Foo,misty''))"
proof -
  have "set (parseCSV (''ID,URL,Label,Comments'' @ [CHR 0x0A] @ ''1,https://x/a.jpg,Foo,misty'')) =
     {\<lparr>img_id = ''1'', url = ''https://x/a.jpg'', label = ''Foo'', comments = None\<rparr>}"
    by (simp add: csv_eval)
  with parseCSV_no_comments [of "''ID,URL,Label,Comments'' @ [CHR 0x0A] @ ''1,https://x/a.jpg,Foo,misty''"]
  show ?thesis by (simp add: list_all_iff)
qed

text \<open>
  C9, as the specification states it: on a snapshot with pairwise distinct ids \<^verbatim>\<open>addImage\<close>
  assigns an id that is not in the snapshot. Two calls at the same clock reading, the
  second on the snapshot the first one stored, whose ids are distinct: the second record
  gets the id of the first and the stored snapshot holds that id twice.
\<close>

theorem addImage_collision_counterexample:
  "snapshot_of (initializeData
      (snd (addImage 1700000000000 ''https://x/a.jpg'' ''A'' (new_service None)))) =
     Some (DEMO_IMAGES @
       [\<lparr>img_id = ''1700000000000'', url = ''https://x/a.jpg'', label = ''A'', comments = None\<rparr>]) \<and>
   distinct (map img_id (DEMO_IMAGES @
       [\<lparr>img_id = ''1700000000000'', url = ''https://x/a.jpg'', label = ''A'', comments = None\<rparr>])) \<and>
   fst (addImage 1700000000000 ''https://x/b.jpg'' ''B''
      (snd (addImage 1700000000000 ''https://x/a.jpg'' ''A'' (new_service None)))) =
     Inr \<lparr>img_id = ''1700000000000'', url = ''https://x/b.jpg'', label = ''B'', comments = None\<rparr> \<and>
   localStorage (snd (addImage 1700000000000 ''https://x/b.jpg'' ''B''
      (snd (addImage 1700000000000 ''https://x/a.jpg'' ''A'' (new_service None))))) =
     Some (Encoded (DEMO_IMAGES @
       [\<lparr>img_id = ''1700000000000'', url = ''https://x/a.jpg'', label = ''A'', comments = None\<rparr>,
        \<lparr>img_id = ''1700000000000'', url = ''https://x/b.jpg'', label = ''B'', comments = None\<rparr>])) \<and>
   \<not> distinct (map img_id (DEMO_IMAGES @
       [\<lparr>img_id = ''1700000000000'', url = ''https://x/a.jpg'', label = ''A'', comments = None\<rparr>,
        \<lparr>img_id = ''1700000000000'', url = ''https://x/b.jpg'', label = ''B'', comments = None\<rparr>]))"
proof -
  have n: "number_toString 1700000000000 = ''1700000000000''"
    by (simp add: number_toString_def decimal.simps digit_char_def)
  have s1: "snd (addImage 1700000000000 ''https://x/a.jpg'' ''A'' (new_service None)) =
      \<lparr>useMockData = True, sheetUrl = None,
        localStorage = Some (Encoded (DEMO_IMAGES @
          [\<lparr>img_id = ''1700000000000'', url = ''https://x/a.jpg'', label = ''A'', comments = None\<rparr>])),
        demo_array = DEMO_IMAGES @
          [\<lparr>img_id = ''1700000000000'', url = ''https://x/a.jpg'', label = ''A'', comments = None\<rparr>]\<rparr>"
    by (simp add: addImage_def service_defs new_service_def Let_def n)
  show ?thesis
    unfolding s1
    by (simp add: addImage_def service_defs Let_def n) (simp add: DEMO_IMAGES_def)
qed

text \<open>
  C9, amended. \<^verbatim>\<open>addImage\<close> gives the new record the decimal text of the clock reading
  as its id, appends it at the end of the cache-backed snapshot, stores the result and
  returns the record. The ids of the stored snapshot are pairwise distinct exactly when
  those of the snapshot before were and the text of the clock reading was not among them.
\<close>

theorem addImage_contract:
  "snapshot_of (initializeData s) = Some images \<longrightarrow>
     fst (addImage now u l s) =
       Inr \<lparr>img_id = number_toString now, url = u, label = l, comments = None\<rparr> \<and>
     localStorage (snd (addImage now u l s)) =
       Some (JSON_stringify
         (images @ [\<lparr>img_id = number_toString now, url = u, label = l, comments = None\<rparr>])) \<and>
     (distinct (map img_id
         (images @ [\<lparr>img_id = number_toString now, url = u, label = l, comments = None\<rparr>])) \<longleftrightarrow>
      distinct (map img_id images) \<and> number_toString now \<notin> img_id ` set images)"
  using addImage_result [of s images now u l] by auto

theorem addImage_contract_witness:
  "snapshot_of (initializeData (new_service None)) = Some DEMO_IMAGES \<and>
   distinct (map img_id DEMO_IMAGES) \<and>
   number_toString 1700000000000 \<notin> img_id ` set DEMO_IMAGES \<and>
   fst (addImage 1700000000000 ''https://x/a.jpg'' ''A'' (new_service None)) =
     Inr \<lparr>img_id = ''1700000000000'', url = ''https://x/a.jpg'', label = ''A'', comments = None\<rparr> \<and>
   distinct (map img_id (DEMO_IMAGES @
     [\<lparr>img_id = number_toString 1700000000000, url = ''https://x/a.jpg'', label = ''A'',
       comments = None\<rparr>]))"
proof -
  have n: "number_toString 1700000000000 = ''1700000000000''"
    by (simp add: number_toString_def decimal.simps digit_char_def)
  have h: "snapshot_of (initializeData (new_service None)) = Some DEMO_IMAGES"
    by (simp add: service_defs new_service_def)
  have d: "distinct (map img_id DEMO_IMAGES)"
    "number_toString 1700000000000 \<notin> img_id ` set DEMO_IMAGES"
    by (simp_all add: DEMO_IMAGES_def n)
  from addImage_contract [of "new_service None" DEMO_IMAGES 1700000000000
      "''https://x/a.jpg''" "''A''"] h d
  show ?thesis by (simp add: n)
qed

text \<open>
  C10. After a mutation on an empty or unparseable cache the slot is to hold the six
  built-in demo records, possibly modified by the operation. The slot then holds the
  demo array with the operation applied (lemma \<open>mutations_seed_demo_array\<close>), and the
  array is not fixed: \<^verbatim>\<open>addImage\<close> on an empty cache pushes its record onto the array
  \<^verbatim>\<open>DEMO_IMAGES\<close> itself, and after \<^verbatim>\<open>resetToDemo\<close> a \<^verbatim>\<open>deleteImage\<close> of an id that occurs
  nowhere leaves seven records in the slot.
\<close>

theorem deleteImage_seeds_written_array:
  "cache_empty_or_corrupt
     (resetToDemo (snd (addImage 1700000000000 ''https://x/a.jpg'' ''A'' (new_service None)))) \<and>
   ''42'' \<notin> img_id ` set (demo_array
     (resetToDemo (snd (addImage 1700000000000 ''https://x/a.jpg'' ''A'' (new_service None))))) \<and>
   localStorage (snd (deleteImage ''42''
     (resetToDemo (snd (addImage 1700000000000 ''https://x/a.jpg'' ''A'' (new_service None)))))) =
     Some (Encoded (DEMO_IMAGES @
       [\<lparr>img_id = ''1700000000000'', url = ''https://x/a.jpg'', label = ''A'', comments = None\<rparr>])) \<and>
   length (DEMO_IMAGES @
       [\<lparr>img_id = ''1700000000000'', url = ''https://x/a.jpg'', label = ''A'', comments = None\<rparr>]) = 7 \<and>
   length DEMO_IMAGES = 6"
proof -
  have n: "number_toString 1700000000000 = ''1700000000000''"
    by (simp add: number_toString_def decimal.simps digit_char_def)
  have s1: "resetToDemo (snd (addImage 1700000000000 ''https://x/a.jpg'' ''A'' (new_service None))) =
      \<lparr>useMockData = True, sheetUrl = None, localStorage = None,
        demo_array = DEMO_IMAGES @
          [\<lparr>img_id = ''1700000000000'', url = ''https://x/a.jpg'', label = ''A'', comments = None\<rparr>]\<rparr>"
    by (simp add: addImage_def resetToDemo_def service_defs new_service_def Let_def n)
  have six: "length DEMO_IMAGES = 6"
    by (simp add: DEMO_IMAGES_def)
  have absent: "''42'' \<notin> img_id ` set (DEMO_IMAGES @
          [\<lparr>img_id = ''1700000000000'', url = ''https://x/a.jpg'', label = ''A'', comments = None\<rparr>])"
    by (simp add: DEMO_IMAGES_def)
  then have keep: "filter (\<lambda>img. img_id img \<noteq> ''42'') (DEMO_IMAGES @
          [\<lparr>img_id = ''1700000000000'', url = ''https://x/a.jpg'', label = ''A'', comments = None\<rparr>]) =
      DEMO_IMAGES @
          [\<lparr>img_id = ''1700000000000'', url = ''https://x/a.jpg'', label = ''A'', comments = None\<rparr>]"
    by (simp add: filter_id_conv) force
  show ?thesis
    unfolding s1
    using absent keep six
    by (simp add: deleteImage_def service_defs cache_empty_or_corrupt_def Let_def)
qed

end
